theory Spec2Isabelle
  imports Main "HOL-Library.Sublist"
begin

section \<open>Data model\<close>

text \<open>
  The program is the console chatbot of \<^verbatim>\<open>chatbot.py\<close>. Strings are Python \<^verbatim>\<open>str\<close>
  values, modelled as \<^typ>\<open>string\<close>: the bytes of the text in UTF-8, so that a character
  beyond ASCII is the two or three bytes of its encoding. A chat message is the two-key dictionary
  \<^verbatim>\<open>{"role": ..., "content": ...}\<close>; the three role literals the program writes
  (\<^verbatim>\<open>"system"\<close>, \<^verbatim>\<open>"user"\<close>, \<^verbatim>\<open>"assistant"\<close>) are the constructors of \<open>role\<close>.
\<close>

datatype role = System | User | Assistant

record message =
  role :: role
  content :: string

text \<open>
  An external call either returns a value or raises. \<open>Raises e\<close> carries \<^verbatim>\<open>str(e)\<close>,
  the text the handlers print.
\<close>

datatype 'a result = Raises string | Returns 'a

text \<open>
  \<^verbatim>\<open>subprocess.run(argv, check=True)\<close> returns when the command exits with status 0,
  raises \<^verbatim>\<open>CalledProcessError\<close> when it exits with another status, and raises some other
  exception when the command cannot be run at all (\<^verbatim>\<open>FileNotFoundError\<close> when there is no
  \<^verbatim>\<open>git\<close> to start). The last two constructors carry \<^verbatim>\<open>str(e)\<close>.
\<close>

datatype completed = Completed | CalledProcessError string | OtherException string

text \<open>The fields of \<^verbatim>\<open>datetime.now()\<close> that the program formats.\<close>

record datetime =
  year :: nat
  month :: nat
  day :: nat
  hour :: nat
  minute :: nat
  second :: nat

text \<open>
  Everything the program does to the outside world, in order: a line read from the
  console by \<^verbatim>\<open>input("User: ")\<close>, a line printed, a request to the moderation endpoint with its response (the
  \<^verbatim>\<open>flagged\<close> bits of \<^verbatim>\<open>response.results\<close>), a request to the chat endpoint with
  its response (the \<^verbatim>\<open>message.content\<close> of each of \<^verbatim>\<open>response.choices\<close>, \<open>None\<close> for a
  null content), a file written, a command run. The model name, the temperature and the
  token limit are the same constants in every request to the chat endpoint and are left
  out of its event.
\<close>

datatype event =
    Input string
  | Print string
  | ModerationsCreate string "bool list result"
  | ChatCompletionsCreate "message list" "string option list result"
  | FileWrite string string
  | SubprocessRun "string list" completed

text \<open>
  The outside world answers each call; its answer may depend on everything that has
  happened so far, so a service need not answer the same text twice the same way.
\<close>

record world =
  getenv_OPENAI_API_KEY :: "string option"
  moderations_create :: "event list \<Rightarrow> string \<Rightarrow> bool list result"
  chat_completions_create :: "event list \<Rightarrow> message list \<Rightarrow> string option list result"
  datetime_now :: "event list \<Rightarrow> datetime"
  subprocess_run :: "event list \<Rightarrow> string list \<Rightarrow> completed"

text \<open>The session state: the \<^verbatim>\<open>messages\<close> list and the events so far.\<close>

record state =
  messages :: "message list"
  trace :: "event list"

section \<open>Python string helpers\<close>

text \<open>
  \<^verbatim>\<open>str.lower\<close> on the ASCII range: the letters \<^verbatim>\<open>A\<close> to \<^verbatim>\<open>Z\<close> map to \<^verbatim>\<open>a\<close> to
  \<^verbatim>\<open>z\<close>. The program lowers a line only to compare it with the two exit keywords, and
  no line with a character beyond ASCII lowers to either of them.
\<close>

definition lower_char :: "char \<Rightarrow> char" where
  "lower_char c =
     (case map_of (zip ''ABCDEFGHIJKLMNOPQRSTUVWXYZ'' ''abcdefghijklmnopqrstuvwxyz'') c of
        Some l \<Rightarrow> l
      | None \<Rightarrow> c)"

definition lower :: "string \<Rightarrow> string" where
  "lower s = map lower_char s"

text \<open>The UTF-8 encoding of a code point below U+10000.\<close>

definition utf8 :: "nat \<Rightarrow> string" where
  "utf8 n =
     (if n < 0x80 then [char_of n]
      else if n < 0x800 then [char_of (0xC0 + n div 0x40), char_of (0x80 + n mod 0x40)]
      else [char_of (0xE0 + n div 0x1000), char_of (0x80 + n div 0x40 mod 0x40),
            char_of (0x80 + n mod 0x40)])"

text \<open>
  The characters \<^verbatim>\<open>str.strip()\<close> removes are the 29 for which \<^verbatim>\<open>str.isspace\<close> holds,
  here in UTF-8: U+0009 to U+000D, U+001C to U+001F, U+0020; U+0085, U+00A0; U+1680;
  U+2000 to U+200A; U+2028, U+2029, U+202F; U+205F; U+3000. In UTF-8 a byte below 0x80 is
  always a character of its own and a lead byte (0xC2, 0xE1, 0xE2, 0xE3) always starts a
  character, so one of these sequences at an end of a string is that character at that end.
\<close>

definition whitespace :: "string list" where
  "whitespace =
     [[CHR 0x09], [CHR 0x0A], [CHR 0x0B], [CHR 0x0C], [CHR 0x0D],
      [CHR 0x1C], [CHR 0x1D], [CHR 0x1E], [CHR 0x1F], [CHR 0x20],
      [CHR 0xC2, CHR 0x85], [CHR 0xC2, CHR 0xA0],
      [CHR 0xE1, CHR 0x9A, CHR 0x80],
      [CHR 0xE2, CHR 0x80, CHR 0x80], [CHR 0xE2, CHR 0x80, CHR 0x81],
      [CHR 0xE2, CHR 0x80, CHR 0x82], [CHR 0xE2, CHR 0x80, CHR 0x83],
      [CHR 0xE2, CHR 0x80, CHR 0x84], [CHR 0xE2, CHR 0x80, CHR 0x85],
      [CHR 0xE2, CHR 0x80, CHR 0x86], [CHR 0xE2, CHR 0x80, CHR 0x87],
      [CHR 0xE2, CHR 0x80, CHR 0x88], [CHR 0xE2, CHR 0x80, CHR 0x89],
      [CHR 0xE2, CHR 0x80, CHR 0x8A],
      [CHR 0xE2, CHR 0x80, CHR 0xA8], [CHR 0xE2, CHR 0x80, CHR 0xA9],
      [CHR 0xE2, CHR 0x80, CHR 0xAF],
      [CHR 0xE2, CHR 0x81, CHR 0x9F],
      [CHR 0xE3, CHR 0x80, CHR 0x80]]"

text \<open>
  Removing from the front of a string, as long as there is one, a sequence of the given
  list. Each removal shortens the string, so the function is total.
\<close>

function strip_leading :: "string list \<Rightarrow> string \<Rightarrow> string" where
  "strip_leading seqs s =
     (case find (\<lambda>ws. ws \<noteq> [] \<and> take (length ws) s = ws) seqs of
        None \<Rightarrow> s
      | Some ws \<Rightarrow> strip_leading seqs (drop (length ws) s))"
  by pat_completeness auto
termination
proof (relation "measure (\<lambda>(seqs, s). length s)")
  show "wf (measure (\<lambda>(seqs, s). length s))" by simp
next
  fix seqs :: "string list" and s ws :: string
  assume "find (\<lambda>ws. ws \<noteq> [] \<and> take (length ws) s = ws) seqs = Some ws"
  then have "ws \<noteq> [] \<and> take (length ws) s = ws" by (auto simp add: find_Some_iff)
  then have "s \<noteq> []" and "0 < length ws" by auto
  then show "((seqs, drop (length ws) s), (seqs, s)) \<in> measure (\<lambda>(seqs, s). length s)"
    by simp
qed

declare strip_leading.simps [simp del]

text \<open>
  \<^verbatim>\<open>str.strip()\<close> removes the whitespace characters at the front and those at the back;
  at the back the same function works on the reversed string with the reversed sequences.
\<close>

definition lstrip :: "string \<Rightarrow> string" where
  "lstrip s = strip_leading whitespace s"

definition rstrip :: "string \<Rightarrow> string" where
  "rstrip s = rev (strip_leading (map rev whitespace) (rev s))"

definition strip :: "string \<Rightarrow> string" where
  "strip s = rstrip (lstrip s)"

text \<open>\<^verbatim>\<open>strftime("%Y%m%d_%H%M%S")\<close>: zero-padded decimal fields.\<close>

definition digit :: "nat \<Rightarrow> char" where
  "digit n = ''0123456789'' ! (n mod 10)"

definition zfill2 :: "nat \<Rightarrow> string" where
  "zfill2 n = [digit (n div 10), digit n]"

definition zfill4 :: "nat \<Rightarrow> string" where
  "zfill4 n = [digit (n div 1000), digit (n div 100), digit (n div 10), digit n]"

definition strftime :: "datetime \<Rightarrow> string" where
  "strftime d =
     zfill4 (year d) @ zfill2 (month d) @ zfill2 (day d) @ ''_'' @
     zfill2 (hour d) @ zfill2 (minute d) @ zfill2 (second d)"

text \<open>Reading a string of decimal digits back as a number.\<close>

definition digit_value :: "char \<Rightarrow> nat" where
  "digit_value c = length (takeWhile (\<lambda>d. d \<noteq> c) ''0123456789'')"

definition number :: "string \<Rightarrow> nat" where
  "number ds = foldl (\<lambda>n c. 10 * n + digit_value c) 0 ds"

section \<open>The Escalation Recorder: \<^verbatim>\<open>record_flagged_content\<close>\<close>

definition newline :: char where
  "newline = CHR 0x0A"

definition artifact_name :: "string \<Rightarrow> string" where
  "artifact_name timestamp = ''flagged_event_'' @ timestamp @ ''.txt''"

definition artifact_content :: "string \<Rightarrow> string \<Rightarrow> string" where
  "artifact_content timestamp offending_text =
     ''Flagged content detected at '' @ timestamp @ [newline] @
     ''Offending text:'' @ [newline] @ offending_text @ [newline]"

text \<open>The three commands of the publish sequence, in the order the program runs them.\<close>

definition git_add :: "string \<Rightarrow> string list" where
  "git_add filename = [''git'', ''add'', filename]"

definition git_commit :: "string \<Rightarrow> string list" where
  "git_commit filename = [''git'', ''commit'', ''-m'', ''Add flagged content file '' @ filename]"

definition git_push :: "string list" where
  "git_push = [''git'', ''push'', ''origin'', ''main'']"

definition run_check :: "world \<Rightarrow> string list \<Rightarrow> event list \<Rightarrow> completed \<times> event list" where
  "run_check w argv tr =
     (let r = subprocess_run w tr argv in (r, tr @ [SubprocessRun argv r]))"

definition push_error :: "string \<Rightarrow> event" where
  "push_error e = Print (''Error pushing flagged content file: '' @ e)"

definition pushed_notice :: "string \<Rightarrow> event" where
  "pushed_notice filename =
     Print (''Pushed flagged file '' @ filename @ '' to repo, triggering CircleCI pipeline.'')"

text \<open>
  The file is written first, outside the \<^verbatim>\<open>try\<close>, into the working directory, which the
  docstring requires to be the local clone; the write is taken to succeed. Inside the \<^verbatim>\<open>try\<close> the three commands run in
  turn. The first \<^verbatim>\<open>CalledProcessError\<close> jumps to the handler, which prints and lets the
  function return; any other exception is not caught and leaves the function, which is the
  \<open>Raises\<close> result.
\<close>

definition record_flagged_content ::
    "world \<Rightarrow> string \<Rightarrow> event list \<Rightarrow> unit result \<times> event list" where
  "record_flagged_content w offending_text tr =
     (let timestamp = strftime (datetime_now w tr);
          filename = artifact_name timestamp;
          tr1 = tr @ [FileWrite filename (artifact_content timestamp offending_text)]
      in case run_check w (git_add filename) tr1 of
           (CalledProcessError e, tr2) \<Rightarrow> (Returns (), tr2 @ [push_error e])
         | (OtherException e, tr2) \<Rightarrow> (Raises e, tr2)
         | (Completed, tr2) \<Rightarrow>
             (case run_check w (git_commit filename) tr2 of
                (CalledProcessError e, tr3) \<Rightarrow> (Returns (), tr3 @ [push_error e])
              | (OtherException e, tr3) \<Rightarrow> (Raises e, tr3)
              | (Completed, tr3) \<Rightarrow>
                  (case run_check w git_push tr3 of
                     (CalledProcessError e, tr4) \<Rightarrow> (Returns (), tr4 @ [push_error e])
                   | (OtherException e, tr4) \<Rightarrow> (Raises e, tr4)
                   | (Completed, tr4) \<Rightarrow> (Returns (), tr4 @ [pushed_notice filename]))))"

section \<open>The Moderation Gate: \<^verbatim>\<open>moderate_text\<close>\<close>

text \<open>
  \<^verbatim>\<open>response.results[0]\<close> raises \<^verbatim>\<open>IndexError\<close> on an empty list; like every other
  exception of the call it is caught, printed, and answered with \<open>True\<close>.
\<close>

definition index_error :: string where
  "index_error = ''list index out of range''"

definition moderate_text :: "world \<Rightarrow> string \<Rightarrow> event list \<Rightarrow> bool \<times> event list" where
  "moderate_text w text tr =
     (let r = moderations_create w tr text;
          tr1 = tr @ [ModerationsCreate text r]
      in case r of
           Raises e \<Rightarrow> (True, tr1 @ [Print (''Moderation API error: '' @ e)])
         | Returns results \<Rightarrow>
             (case results of
                [] \<Rightarrow> (True, tr1 @ [Print (''Moderation API error: '' @ index_error)])
              | flagged # _ \<Rightarrow> (flagged, tr1)))"

section \<open>The Conversation Orchestrator: \<^verbatim>\<open>run_chatbot\<close>\<close>

definition system_message :: message where
  "system_message =
     \<lparr>role = System,
      content = ''You are a helpful assistant specialized in technology topics.''\<rparr>"

definition placeholder :: message where
  "placeholder = \<lparr>role = Assistant, content = ''[Blocked content]''\<rparr>"

definition goodbye :: event where
  "goodbye = Print ''Assistant: Goodbye!''"

definition user_blocked :: event where
  "user_blocked = Print ''Assistant: [User content flagged by moderation. Not processed.]''"

definition model_blocked :: event where
  "model_blocked = Print ''Assistant: [Model output flagged by moderation. Not displayed.]''"

definition display :: "string \<Rightarrow> event" where
  "display assistant_reply = Print (''Assistant: '' @ assistant_reply @ [newline])"

definition attribute_error :: string where
  "attribute_error =
     [CHR 0x27] @ ''NoneType'' @ [CHR 0x27] @ '' object has no attribute '' @
     [CHR 0x27] @ ''strip'' @ [CHR 0x27]"

text \<open>
  The first two statements of the \<^verbatim>\<open>try\<close> block: the request to the chat endpoint with
  the whole \<^verbatim>\<open>messages\<close> list, then \<^verbatim>\<open>response.choices[0].message.content.strip()\<close>,
  which raises on an empty \<^verbatim>\<open>choices\<close> and on a null content.
\<close>

definition get_reply :: "world \<Rightarrow> message list \<Rightarrow> event list \<Rightarrow> string result \<times> event list" where
  "get_reply w msgs tr =
     (let r = chat_completions_create w tr msgs;
          tr1 = tr @ [ChatCompletionsCreate msgs r]
      in case r of
           Raises e \<Rightarrow> (Raises e, tr1)
         | Returns choices \<Rightarrow>
             (case choices of
                [] \<Rightarrow> (Raises index_error, tr1)
              | c # _ \<Rightarrow>
                  (case c of
                     None \<Rightarrow> (Raises attribute_error, tr1)
                   | Some reply \<Rightarrow> (Returns (strip reply), tr1))))"

definition exit_keywords :: "string list" where
  "exit_keywords = [''exit'', ''quit'']"

text \<open>
  One pass through the body of \<^verbatim>\<open>while True\<close>, on the line \<^verbatim>\<open>input\<close> returned. The
  pass ends by \<^verbatim>\<open>continue\<close> (or by reaching the end of the body), by \<^verbatim>\<open>break\<close>, or
  by an exception that nothing in the body catches. The call of the Recorder on the user's
  line stands outside the \<^verbatim>\<open>try\<close>, so an exception it raises leaves the loop; the call
  on the reply stands inside it, after the placeholder was appended, so an exception it
  raises is printed by the handler, which breaks.
\<close>

datatype flow = Continue | Break | Raise string

definition loop_body :: "world \<Rightarrow> state \<Rightarrow> string \<Rightarrow> flow \<times> state" where
  "loop_body w s user_input =
     (let tr0 = trace s @ [Input user_input] in
      if lower user_input \<in> set exit_keywords then
        (Break, s\<lparr>trace := tr0 @ [goodbye]\<rparr>)
      else
        (case moderate_text w user_input tr0 of
           (True, tr1) \<Rightarrow>
             (case record_flagged_content w user_input (tr1 @ [user_blocked]) of
                (Returns _, tr2) \<Rightarrow> (Continue, s\<lparr>trace := tr2\<rparr>)
              | (Raises e, tr2) \<Rightarrow> (Raise e, s\<lparr>trace := tr2\<rparr>))
         | (False, tr1) \<Rightarrow>
             (let msgs = messages s @ [\<lparr>role = User, content = user_input\<rparr>] in
              case get_reply w msgs tr1 of
                (Raises e, tr2) \<Rightarrow>
                  (Break, \<lparr>messages = msgs, trace = tr2 @ [Print (''Error: '' @ e)]\<rparr>)
              | (Returns assistant_reply, tr2) \<Rightarrow>
                  (case moderate_text w assistant_reply tr2 of
                     (True, tr3) \<Rightarrow>
                       (case record_flagged_content w assistant_reply (tr3 @ [model_blocked]) of
                          (Returns _, tr4) \<Rightarrow>
                            (Continue, \<lparr>messages = msgs @ [placeholder], trace = tr4\<rparr>)
                        | (Raises e, tr4) \<Rightarrow>
                            (Break,
                             \<lparr>messages = msgs @ [placeholder],
                              trace = tr4 @ [Print (''Error: '' @ e)]\<rparr>))
                   | (False, tr3) \<Rightarrow>
                       (Continue,
                        \<lparr>messages = msgs @ [\<lparr>role = Assistant, content = assistant_reply\<rparr>],
                         trace = tr3 @ [display assistant_reply]\<rparr>)))))"

text \<open>
  The loop over the lines of standard input. When the input is exhausted \<^verbatim>\<open>input\<close>
  raises \<^verbatim>\<open>EOFError\<close>, which nothing catches; an exception that leaves the loop body
  leaves the program too.
\<close>

datatype outcome = Returned | EOFError | ValueError | Escaped string

fun chat_loop :: "world \<Rightarrow> state \<Rightarrow> string list \<Rightarrow> outcome \<times> state" where
  "chat_loop w s [] = (EOFError, s)"
| "chat_loop w s (user_input # rest) =
     (case loop_body w s user_input of
        (Break, s') \<Rightarrow> (Returned, s')
      | (Raise e, s') \<Rightarrow> (Escaped e, s')
      | (Continue, s') \<Rightarrow> chat_loop w s' rest)"

text \<open>
  \<^verbatim>\<open>run_chatbot\<close> first calls \<^verbatim>\<open>initialize_openai_client\<close>, which raises \<^verbatim>\<open>ValueError\<close>
  when \<^verbatim>\<open>OPENAI_API_KEY\<close> is unset or empty; then it prints two banner lines, seeds
  \<^verbatim>\<open>messages\<close> with the system message, and enters the loop.
\<close>

definition banner :: "event list" where
  "banner =
     [Print ([newline] @
        ''=== GPT-3.5-Turbo Chatbot (Moderate User & Model, then Commit Flagged File) ===''),
      Print (''Type '' @ [CHR 0x27] @ ''exit'' @ [CHR 0x27] @ '' or '' @ [CHR 0x27] @ ''quit'' @
        [CHR 0x27] @ '' to end the session.'' @ [newline])]"

definition initial :: state where
  "initial = \<lparr>messages = [system_message], trace = banner\<rparr>"

definition run_chatbot :: "world \<Rightarrow> string list \<Rightarrow> outcome \<times> state" where
  "run_chatbot w stdin =
     (case getenv_OPENAI_API_KEY w of
        None \<Rightarrow> (ValueError, \<lparr>messages = [], trace = []\<rparr>)
      | Some api_key \<Rightarrow>
          if api_key = [] then (ValueError, \<lparr>messages = [], trace = []\<rparr>)
          else chat_loop w initial stdin)"

section \<open>Observations on a run\<close>

text \<open>
  A response of the moderation endpoint that makes \<^verbatim>\<open>moderate_text\<close> answer \<open>False\<close>:
  it has a first result, and that result is not flagged.
\<close>

fun answers_clean :: "bool list result \<Rightarrow> bool" where
  "answers_clean (Returns (flagged # _)) = (\<not> flagged)"
| "answers_clean _ = False"

text \<open>What \<^verbatim>\<open>moderate_text\<close> prints for a response.\<close>

definition gate_prints :: "bool list result \<Rightarrow> event list" where
  "gate_prints r =
     (case r of
        Raises e \<Rightarrow> [Print (''Moderation API error: '' @ e)]
      | Returns [] \<Rightarrow> [Print (''Moderation API error: '' @ index_error)]
      | Returns (_ # _) \<Rightarrow> [])"

text \<open>A text is cleared by a trace when the trace holds a clean moderation answer for it.\<close>

fun clears :: "string \<Rightarrow> event \<Rightarrow> bool" where
  "clears text (ModerationsCreate t r) = (t = text \<and> answers_clean r)"
| "clears text _ = False"

definition cleared :: "event list \<Rightarrow> string \<Rightarrow> bool" where
  "cleared tr text = list_ex (clears text) tr"

text \<open>
  The intermediate values of one turn, named after the statements of the loop body that
  compute them: the verdict on the user's line and the trace after that check, the
  \<^verbatim>\<open>messages\<close> list with the user's message appended, the outcome of the completion
  request with the trace after it, and the verdict on a reply with the trace after that
  check.
\<close>

definition user_flagged :: "world \<Rightarrow> state \<Rightarrow> string \<Rightarrow> bool" where
  "user_flagged w s user_input = fst (moderate_text w user_input (trace s @ [Input user_input]))"

definition after_user_check :: "world \<Rightarrow> state \<Rightarrow> string \<Rightarrow> event list" where
  "after_user_check w s user_input =
     snd (moderate_text w user_input (trace s @ [Input user_input]))"

definition with_user :: "state \<Rightarrow> string \<Rightarrow> message list" where
  "with_user s user_input = messages s @ [\<lparr>role = User, content = user_input\<rparr>]"

definition reply :: "world \<Rightarrow> state \<Rightarrow> string \<Rightarrow> string result" where
  "reply w s user_input =
     fst (get_reply w (with_user s user_input) (after_user_check w s user_input))"

definition after_reply :: "world \<Rightarrow> state \<Rightarrow> string \<Rightarrow> event list" where
  "after_reply w s user_input =
     snd (get_reply w (with_user s user_input) (after_user_check w s user_input))"

definition model_flagged :: "world \<Rightarrow> state \<Rightarrow> string \<Rightarrow> string \<Rightarrow> bool" where
  "model_flagged w s user_input assistant_reply =
     fst (moderate_text w assistant_reply (after_reply w s user_input))"

definition after_model_check :: "world \<Rightarrow> state \<Rightarrow> string \<Rightarrow> string \<Rightarrow> event list" where
  "after_model_check w s user_input assistant_reply =
     snd (moderate_text w assistant_reply (after_reply w s user_input))"

text \<open>
  What the handler of the loop's \<^verbatim>\<open>try\<close> block prints when the call of the Recorder on a
  reply ended with the given result.
\<close>

definition handler_prints :: "unit result \<Rightarrow> event list" where
  "handler_prints res = (case res of Raises e \<Rightarrow> [Print (''Error: '' @ e)] | Returns _ \<Rightarrow> [])"

text \<open>The events one turn adds, and the events one call of the Recorder adds.\<close>

definition emitted :: "world \<Rightarrow> state \<Rightarrow> string \<Rightarrow> event list" where
  "emitted w s user_input = drop (length (trace s)) (trace (snd (loop_body w s user_input)))"

definition recorded :: "world \<Rightarrow> string \<Rightarrow> event list \<Rightarrow> event list" where
  "recorded w offending_text tr =
     drop (length tr) (snd (record_flagged_content w offending_text tr))"

fun is_input :: "event \<Rightarrow> bool" where
  "is_input (Input _) = True"
| "is_input _ = False"

fun is_request :: "event \<Rightarrow> bool" where
  "is_request (ChatCompletionsCreate _ _) = True"
| "is_request _ = False"

fun is_check :: "event \<Rightarrow> bool" where
  "is_check (ModerationsCreate _ _) = True"
| "is_check _ = False"

fun is_flagged :: "event \<Rightarrow> bool" where
  "is_flagged (ModerationsCreate _ r) = (\<not> answers_clean r)"
| "is_flagged _ = False"

fun is_write :: "event \<Rightarrow> bool" where
  "is_write (FileWrite _ _) = True"
| "is_write _ = False"

fun is_stage :: "event \<Rightarrow> bool" where
  "is_stage (SubprocessRun argv _) = (take 2 argv = [''git'', ''add''])"
| "is_stage _ = False"

fun commands :: "event list \<Rightarrow> string list list" where
  "commands [] = []"
| "commands (SubprocessRun argv _ # es) = argv # commands es"
| "commands (_ # es) = commands es"

text \<open>
  The names of the files a trace writes, in order. \<^verbatim>\<open>open(filename, "w")\<close> creates the
  file when no file of that name exists and overwrites it otherwise, so the files a trace
  has created are the distinct names among them.
\<close>

fun file_names :: "event list \<Rightarrow> string list" where
  "file_names [] = []"
| "file_names (FileWrite filename _ # es) = filename # file_names es"
| "file_names (_ # es) = file_names es"

text \<open>
  A \<^verbatim>\<open>messages\<close> list is in order for a trace when each of its messages is a system
  message, the placeholder, or a message whose content the trace has cleared.
\<close>

definition history_ok :: "event list \<Rightarrow> message list \<Rightarrow> bool" where
  "history_ok tr msgs =
     list_all (\<lambda>m. role m = System \<or> m = placeholder \<or> cleared tr (content m)) msgs"

text \<open>
  \<open>always_after P seen tr\<close>: every event of \<open>tr\<close> satisfies \<open>P\<close> of the events before
  it, \<open>seen\<close> being the events before \<open>tr\<close>.
\<close>

fun always_after :: "(event list \<Rightarrow> event \<Rightarrow> bool) \<Rightarrow> event list \<Rightarrow> event list \<Rightarrow> bool" where
  "always_after P seen [] = True"
| "always_after P seen (e # es) = (P seen e \<and> always_after P (seen @ [e]) es)"

fun request_ok :: "event list \<Rightarrow> event \<Rightarrow> bool" where
  "request_ok seen (ChatCompletionsCreate msgs _) = history_ok seen msgs"
| "request_ok seen _ = True"

text \<open>A printed line that shows a reply was printed after the reply was cleared.\<close>

abbreviation display_ok :: "event list \<Rightarrow> event \<Rightarrow> bool" where
  "display_ok seen e \<equiv> (\<forall>r. e = display r \<longrightarrow> cleared seen r)"

section \<open>Sample environments\<close>

text \<open>
  Three concrete worlds on which the theorems below are exercised. In \<open>service\<close> the
  moderation endpoint times out on one text, answers without results on another, and
  flags two words; the chat endpoint fails on one prompt, answers a flagged word on
  another, and otherwise greets, the greeting standing between a no-break space (U+00A0)
  and an em space (U+2003); every git command succeeds. In \<open>offline\<close> the push exits
  with a failure. In \<open>no_git\<close> there is no git to start.
\<close>

definition greeting :: string where
  "greeting = [CHR 0xC2, CHR 0xA0] @ '' Hi there! '' @ [CHR 0xE2, CHR 0x80, CHR 0x83]"

definition clock :: datetime where
  "clock = \<lparr>year = 2024, month = 6, day = 1, hour = 9, minute = 30, second = 5\<rparr>"

definition service :: world where
  "service =
     \<lparr>getenv_OPENAI_API_KEY = Some ''sk-test'',
      moderations_create =
        (\<lambda>tr t. if t = ''timeout'' then Raises ''Connection error.''
                else if t = ''empty'' then Returns []
                else Returns [t \<in> set [''bad'', ''rude'']]),
      chat_completions_create =
        (\<lambda>tr msgs. if content (last msgs) = ''fail'' then Raises ''Service unavailable''
                   else if content (last msgs) = ''provoke'' then Returns [Some ''  rude '']
                   else Returns [Some greeting, Some ''unused'']),
      datetime_now = (\<lambda>tr. clock),
      subprocess_run = (\<lambda>tr argv. Completed)\<rparr>"

definition offline :: world where
  "offline =
     service\<lparr>subprocess_run :=
       (\<lambda>tr argv. if argv = git_push then CalledProcessError ''exit status 128''
                  else Completed)\<rparr>"



section \<open>Startup\<close>

text \<open>
  With a non-empty key in the environment the program is the loop started in the initial
  state; without one it raises before it prints or reads anything.
\<close>

lemma run_chatbot_started:
  "getenv_OPENAI_API_KEY w = Some api_key \<Longrightarrow> api_key \<noteq> [] \<Longrightarrow>
   run_chatbot w stdin = chat_loop w initial stdin"
  by (simp add: run_chatbot_def)

lemma run_chatbot_no_key:
  "getenv_OPENAI_API_KEY w = None \<or> getenv_OPENAI_API_KEY w = Some [] \<Longrightarrow>
   run_chatbot w stdin = (ValueError, \<lparr>messages = [], trace = []\<rparr>)"
  by (auto simp add: run_chatbot_def)

section \<open>The Moderation Gate\<close>

lemma moderate_text_eq:
  "moderate_text w t tr =
     (\<not> answers_clean (moderations_create w tr t),
      tr @ ModerationsCreate t (moderations_create w tr t) #
        gate_prints (moderations_create w tr t))"
  by (simp add: moderate_text_def gate_prints_def Let_def split: result.splits list.splits)

text \<open>
  C2. Whatever the text, when the call to the moderation endpoint raises, or its response
  holds no result to read, \<^verbatim>\<open>moderate_text\<close> answers flagged; when the call returns a
  response with a first result, it answers that result's flagged bit unchanged.
\<close>

theorem moderate_text_fail_safe:
  "(moderations_create w tr t = Raises e \<longrightarrow> fst (moderate_text w t tr) = True) \<and>
   (moderations_create w tr t = Returns [] \<longrightarrow> fst (moderate_text w t tr) = True) \<and>
   (moderations_create w tr t = Returns (flagged # others) \<longrightarrow>
      fst (moderate_text w t tr) = flagged)"
  by (simp add: moderate_text_def Let_def)

theorem moderate_text_fail_safe_witness:
  "moderations_create service [] ''timeout'' = Raises ''Connection error.'' \<and>
   fst (moderate_text service ''timeout'' []) = True \<and>
   moderations_create service [] ''empty'' = Returns [] \<and>
   fst (moderate_text service ''empty'' []) = True \<and>
   moderations_create service [] ''bad'' = Returns [True] \<and>
   fst (moderate_text service ''bad'' []) = True \<and>
   moderations_create service [] ''hello'' = Returns [False] \<and>
   fst (moderate_text service ''hello'' []) = False"
  using moderate_text_fail_safe [of service "[]" "''timeout''" "''Connection error.''"]
    moderate_text_fail_safe [of service "[]" "''empty''"]
    moderate_text_fail_safe [of service "[]" "''bad''" _ True "[]"]
    moderate_text_fail_safe [of service "[]" "''hello''" _ False "[]"]
  by (simp add: service_def)

section \<open>The loop body, branch by branch\<close>

lemma record_extends: "snd (record_flagged_content w t tr) = tr @ recorded w t tr"
  by (simp add: recorded_def record_flagged_content_def run_check_def Let_def
      split: completed.splits)


lemma loop_body_exit:
  "lower u \<in> set exit_keywords \<Longrightarrow>
   loop_body w s u = (Break, s\<lparr>trace := trace s @ [Input u, goodbye]\<rparr>)"
  by (simp add: loop_body_def)

lemma loop_body_user_flagged:
  "lower u \<notin> set exit_keywords \<Longrightarrow> user_flagged w s u \<Longrightarrow>
   loop_body w s u =
     (case fst (record_flagged_content w u (after_user_check w s u @ [user_blocked])) of
        Returns _ \<Rightarrow> Continue
      | Raises e \<Rightarrow> Raise e,
      s\<lparr>trace := snd (record_flagged_content w u (after_user_check w s u @ [user_blocked]))\<rparr>)"
  by (auto simp add: loop_body_def user_flagged_def after_user_check_def Let_def
      split: prod.splits bool.splits result.splits)

lemma loop_body_completion_error:
  "lower u \<notin> set exit_keywords \<Longrightarrow> \<not> user_flagged w s u \<Longrightarrow> reply w s u = Raises e \<Longrightarrow>
   loop_body w s u =
     (Break,
      \<lparr>messages = with_user s u, trace = after_reply w s u @ [Print (''Error: '' @ e)]\<rparr>)"
  by (auto simp add: loop_body_def user_flagged_def after_user_check_def with_user_def reply_def
      after_reply_def Let_def split: prod.splits bool.splits result.splits)

lemma loop_body_model_flagged:
  "lower u \<notin> set exit_keywords \<Longrightarrow> \<not> user_flagged w s u \<Longrightarrow> reply w s u = Returns r \<Longrightarrow>
   model_flagged w s u r \<Longrightarrow>
   loop_body w s u =
     (case fst (record_flagged_content w r (after_model_check w s u r @ [model_blocked])) of
        Returns _ \<Rightarrow> Continue
      | Raises e \<Rightarrow> Break,
      \<lparr>messages = with_user s u @ [placeholder],
       trace = snd (record_flagged_content w r (after_model_check w s u r @ [model_blocked])) @
         handler_prints
           (fst (record_flagged_content w r (after_model_check w s u r @ [model_blocked])))\<rparr>)"
  by (auto simp add: loop_body_def user_flagged_def after_user_check_def with_user_def reply_def
      after_reply_def model_flagged_def after_model_check_def handler_prints_def Let_def
      split: prod.splits bool.splits result.splits)

lemma loop_body_model_clean:
  "lower u \<notin> set exit_keywords \<Longrightarrow> \<not> user_flagged w s u \<Longrightarrow> reply w s u = Returns r \<Longrightarrow>
   \<not> model_flagged w s u r \<Longrightarrow>
   loop_body w s u =
     (Continue,
      \<lparr>messages = with_user s u @ [\<lparr>role = Assistant, content = r\<rparr>],
       trace = after_model_check w s u r @ [display r]\<rparr>)"
  by (auto simp add: loop_body_def user_flagged_def after_user_check_def with_user_def reply_def
      after_reply_def model_flagged_def after_model_check_def Let_def
      split: prod.splits bool.splits result.splits)

lemma loop_body_cases [case_names exit user_flagged completion_error model_flagged model_clean]:
  obtains
    "lower u \<in> set exit_keywords"
  | "lower u \<notin> set exit_keywords" "user_flagged w s u"
  | e where "lower u \<notin> set exit_keywords" "\<not> user_flagged w s u" "reply w s u = Raises e"
  | r where "lower u \<notin> set exit_keywords" "\<not> user_flagged w s u" "reply w s u = Returns r"
      "model_flagged w s u r"
  | r where "lower u \<notin> set exit_keywords" "\<not> user_flagged w s u" "reply w s u = Returns r"
      "\<not> model_flagged w s u r"
  by (cases "reply w s u") blast+

subsection \<open>The trace at each point of a turn\<close>

lemma after_user_check_eq:
  "after_user_check w s u =
     trace s @ Input u # ModerationsCreate u (moderations_create w (trace s @ [Input u]) u) #
       gate_prints (moderations_create w (trace s @ [Input u]) u)"
  by (simp add: after_user_check_def moderate_text_eq)

lemma user_flagged_eq:
  "user_flagged w s u = (\<not> answers_clean (moderations_create w (trace s @ [Input u]) u))"
  by (simp add: user_flagged_def moderate_text_eq)

lemma after_reply_eq:
  "after_reply w s u =
     after_user_check w s u @
       [ChatCompletionsCreate (with_user s u)
          (chat_completions_create w (after_user_check w s u) (with_user s u))]"
  by (simp add: after_reply_def get_reply_def Let_def split: result.splits list.splits option.splits)

lemma after_model_check_eq:
  "after_model_check w s u r =
     after_reply w s u @ ModerationsCreate r (moderations_create w (after_reply w s u) r) #
       gate_prints (moderations_create w (after_reply w s u) r)"
  by (simp add: after_model_check_def moderate_text_eq)

lemma model_flagged_eq:
  "model_flagged w s u r = (\<not> answers_clean (moderations_create w (after_reply w s u) r))"
  by (simp add: model_flagged_def moderate_text_eq)

lemma emitted_exit:
  "lower u \<in> set exit_keywords \<Longrightarrow> emitted w s u = [Input u, goodbye]"
  by (simp add: emitted_def loop_body_exit)

lemma emitted_user_flagged:
  "lower u \<notin> set exit_keywords \<Longrightarrow> user_flagged w s u \<Longrightarrow>
   emitted w s u =
     Input u # ModerationsCreate u (moderations_create w (trace s @ [Input u]) u) #
       gate_prints (moderations_create w (trace s @ [Input u]) u) @ user_blocked #
       recorded w u (after_user_check w s u @ [user_blocked])"
  by (simp add: emitted_def loop_body_user_flagged record_extends [of w u] after_user_check_eq)

lemma emitted_completion_error:
  "lower u \<notin> set exit_keywords \<Longrightarrow> \<not> user_flagged w s u \<Longrightarrow> reply w s u = Raises e \<Longrightarrow>
   emitted w s u =
     Input u # ModerationsCreate u (moderations_create w (trace s @ [Input u]) u) #
       gate_prints (moderations_create w (trace s @ [Input u]) u) @
       [ChatCompletionsCreate (with_user s u)
          (chat_completions_create w (after_user_check w s u) (with_user s u)),
        Print (''Error: '' @ e)]"
  by (simp add: emitted_def loop_body_completion_error after_reply_eq after_user_check_eq)

lemma emitted_model_flagged:
  "lower u \<notin> set exit_keywords \<Longrightarrow> \<not> user_flagged w s u \<Longrightarrow> reply w s u = Returns r \<Longrightarrow>
   model_flagged w s u r \<Longrightarrow>
   emitted w s u =
     Input u # ModerationsCreate u (moderations_create w (trace s @ [Input u]) u) #
       gate_prints (moderations_create w (trace s @ [Input u]) u) @
       ChatCompletionsCreate (with_user s u)
          (chat_completions_create w (after_user_check w s u) (with_user s u)) #
       ModerationsCreate r (moderations_create w (after_reply w s u) r) #
       gate_prints (moderations_create w (after_reply w s u) r) @ model_blocked #
       recorded w r (after_model_check w s u r @ [model_blocked]) @
       handler_prints
         (fst (record_flagged_content w r (after_model_check w s u r @ [model_blocked])))"
  by (simp add: emitted_def loop_body_model_flagged record_extends [of w r]
      after_model_check_eq [of w s u r] after_reply_eq [of w s u] after_user_check_eq [of w s u])

lemma emitted_model_clean:
  "lower u \<notin> set exit_keywords \<Longrightarrow> \<not> user_flagged w s u \<Longrightarrow> reply w s u = Returns r \<Longrightarrow>
   \<not> model_flagged w s u r \<Longrightarrow>
   emitted w s u =
     Input u # ModerationsCreate u (moderations_create w (trace s @ [Input u]) u) #
       gate_prints (moderations_create w (trace s @ [Input u]) u) @
       ChatCompletionsCreate (with_user s u)
          (chat_completions_create w (after_user_check w s u) (with_user s u)) #
       ModerationsCreate r (moderations_create w (after_reply w s u) r) #
       gate_prints (moderations_create w (after_reply w s u) r) @ [display r]"
  by (simp add: emitted_def loop_body_model_clean
      after_model_check_eq [of w s u r] after_reply_eq [of w s u] after_user_check_eq [of w s u])

lemma trace_extends: "trace (snd (loop_body w s u)) = trace s @ emitted w s u"
proof (cases rule: loop_body_cases [where u = u and w = w and s = s])
  case exit
  then show ?thesis by (simp add: emitted_def loop_body_exit)
next
  case user_flagged
  then show ?thesis
    by (simp add: emitted_def loop_body_user_flagged record_extends [of w u] after_user_check_eq)
next
  case (completion_error e)
  then show ?thesis
    by (simp add: emitted_def loop_body_completion_error after_reply_eq after_user_check_eq)
next
  case (model_flagged r)
  then show ?thesis
    by (simp add: emitted_def loop_body_model_flagged record_extends [of w r]
      after_model_check_eq [of w s u r] after_reply_eq [of w s u] after_user_check_eq [of w s u])
next
  case (model_clean r)
  then show ?thesis
    by (simp add: emitted_def loop_body_model_clean
      after_model_check_eq [of w s u r] after_reply_eq [of w s u] after_user_check_eq [of w s u])
qed

section \<open>Cleared texts and checked histories\<close>

lemma cleared_append: "cleared (tr @ ev) t = (cleared tr t \<or> cleared ev t)"
  by (simp add: cleared_def)

lemma history_ok_mono: "history_ok tr msgs \<Longrightarrow> history_ok (tr @ ev) msgs"
  by (auto simp add: history_ok_def list_all_iff cleared_append)

lemma history_ok_append:
  "history_ok tr (msgs @ later) = (history_ok tr msgs \<and> history_ok tr later)"
  by (simp add: history_ok_def)

lemma always_after_append:
  "always_after P seen (xs @ ys) = (always_after P seen xs \<and> always_after P (seen @ xs) ys)"
  by (induction xs arbitrary: seen) auto

lemma always_after_split:
  "always_after P seen tr = (\<forall>pre e post. tr = pre @ e # post \<longrightarrow> P (seen @ pre) e)"
proof (induction tr arbitrary: seen)
  case Nil
  then show ?case by simp
next
  case (Cons a tr)
  show ?case
  proof
    assume h: "always_after P seen (a # tr)"
    show "\<forall>pre e post. a # tr = pre @ e # post \<longrightarrow> P (seen @ pre) e"
    proof (intro allI impI)
      fix pre e post
      assume eq: "a # tr = pre @ e # post"
      show "P (seen @ pre) e"
      proof (cases pre)
        case Nil
        with eq h show ?thesis by simp
      next
        case (Cons b pre')
        with eq have "b = a" "tr = pre' @ e # post" by simp_all
        moreover from h have "always_after P (seen @ [a]) tr" by simp
        ultimately have "P ((seen @ [a]) @ pre') e" using Cons.IH by blast
        with Cons \<open>b = a\<close> show ?thesis by simp
      qed
    qed
  next
    assume h: "\<forall>pre e post. a # tr = pre @ e # post \<longrightarrow> P (seen @ pre) e"
    have "P seen a" using h [rule_format, of "[]" a tr] by simp
    moreover have "always_after P (seen @ [a]) tr"
    proof -
      have "\<forall>pre e post. tr = pre @ e # post \<longrightarrow> P ((seen @ [a]) @ pre) e"
      proof (intro allI impI)
        fix pre e post
        assume "tr = pre @ e # post"
        then have "a # tr = (a # pre) @ e # post" by simp
        from h [rule_format, OF this] show "P ((seen @ [a]) @ pre) e" by simp
      qed
      then show ?thesis using Cons.IH by blast
    qed
    ultimately show "always_after P seen (a # tr)" by simp
  qed
qed

lemma always_after_all:
  "(\<And>seen e. e \<in> set xs \<Longrightarrow> P seen e) \<Longrightarrow> always_after P seen xs"
  by (induction xs arbitrary: seen) auto

section \<open>Which printed lines show a reply\<close>

lemma display_last: "display r = Print p \<Longrightarrow> p \<noteq> [] \<and> last p = newline"
  by (auto simp add: display_def)

lemma goodbye_not_display: "goodbye \<noteq> display r"
  using display_last [of r "''Assistant: Goodbye!''"] by (auto simp add: goodbye_def newline_def)

lemma user_blocked_not_display: "user_blocked \<noteq> display r"
  using display_last [of r "''Assistant: [User content flagged by moderation. Not processed.]''"]
  by (auto simp add: user_blocked_def newline_def)

lemma model_blocked_not_display: "model_blocked \<noteq> display r"
  using display_last [of r "''Assistant: [Model output flagged by moderation. Not displayed.]''"]
  by (auto simp add: model_blocked_def newline_def)

lemma gate_prints_not_display: "display r \<notin> set (gate_prints resp)"
  by (auto simp add: gate_prints_def display_def split: result.splits list.splits)

lemma banner_not_display: "display r \<notin> set banner"
  by (auto simp add: banner_def display_def newline_def)

lemma recorded_not_display: "display r \<notin> set (recorded w t tr)"
  by (auto simp add: recorded_def record_flagged_content_def run_check_def Let_def
      push_error_def pushed_notice_def display_def split: completed.splits)

lemma recorded_no_request: "e \<in> set (recorded w t tr) \<Longrightarrow> \<not> is_request e"
  by (auto simp add: recorded_def record_flagged_content_def run_check_def Let_def
      push_error_def pushed_notice_def split: completed.splits)

lemma gate_prints_no_request: "e \<in> set (gate_prints resp) \<Longrightarrow> \<not> is_request e"
  by (auto simp add: gate_prints_def split: result.splits list.splits)

lemma handler_prints_not_display: "display r \<notin> set (handler_prints res)"
  by (auto simp add: handler_prints_def display_def split: result.splits)

lemma handler_prints_no_request: "e \<in> set (handler_prints res) \<Longrightarrow> \<not> is_request e"
  by (auto simp add: handler_prints_def split: result.splits)

lemma not_request_ok: "\<not> is_request e \<Longrightarrow> request_ok seen e"
  by (cases e) simp_all

section \<open>One turn keeps the history checked\<close>

lemma user_cleared: "\<not> user_flagged w s u \<Longrightarrow> cleared (after_user_check w s u) u"
  by (simp add: user_flagged_eq after_user_check_eq cleared_def)

lemma model_cleared: "\<not> model_flagged w s u r \<Longrightarrow> cleared (after_model_check w s u r) r"
  by (simp add: model_flagged_eq after_model_check_eq cleared_def)

lemma after_user_check_extends: "\<exists>ev. after_user_check w s u = trace s @ ev"
  by (simp add: after_user_check_eq)

lemma after_reply_extends: "\<exists>ev. after_reply w s u = after_user_check w s u @ ev"
  by (simp add: after_reply_eq)

lemma after_model_check_extends: "\<exists>ev. after_model_check w s u r = after_reply w s u @ ev"
  by (simp add: after_model_check_eq)

lemma with_user_ok:
  assumes "history_ok (trace s) (messages s)" and "\<not> user_flagged w s u"
  shows "history_ok (after_user_check w s u) (with_user s u)"
proof -
  obtain ev where ev: "after_user_check w s u = trace s @ ev"
    using after_user_check_extends by blast
  have "history_ok (after_user_check w s u) (messages s)"
    using assms(1) by (simp add: ev history_ok_mono)
  moreover have "history_ok (after_user_check w s u) [\<lparr>role = User, content = u\<rparr>]"
    using user_cleared [OF assms(2)] by (simp add: history_ok_def)
  ultimately show ?thesis by (simp add: with_user_def history_ok_append)
qed

lemma turn_history_ok:
  assumes "history_ok (trace s) (messages s)"
  shows "history_ok (trace (snd (loop_body w s u))) (messages (snd (loop_body w s u)))"
proof (cases rule: loop_body_cases [where u = u and w = w and s = s])
  case exit
  then show ?thesis using assms by (simp add: loop_body_exit history_ok_mono)
next
  case user_flagged
  have "trace (snd (loop_body w s u)) = trace s @ emitted w s u" by (rule trace_extends)
  moreover have "messages (snd (loop_body w s u)) = messages s"
    using user_flagged by (simp add: loop_body_user_flagged)
  ultimately show ?thesis using assms by (simp add: history_ok_mono)
next
  case (completion_error e)
  have "history_ok (after_user_check w s u) (with_user s u)"
    using assms completion_error(2) by (rule with_user_ok)
  then have "history_ok (after_reply w s u @ [Print (''Error: '' @ e)]) (with_user s u)"
    using after_reply_extends [of w s u] by (auto simp add: history_ok_mono)
  then show ?thesis using completion_error by (simp add: loop_body_completion_error)
next
  case (model_flagged r)
  have "history_ok (after_user_check w s u) (with_user s u)"
    using assms model_flagged(2) by (rule with_user_ok)
  then have "history_ok (after_model_check w s u r) (with_user s u)"
    using after_reply_extends [of w s u] after_model_check_extends [of w s u r]
    by (auto simp add: history_ok_mono)
  then have "history_ok
      (snd (record_flagged_content w r (after_model_check w s u r @ [model_blocked])) @
       handler_prints
         (fst (record_flagged_content w r (after_model_check w s u r @ [model_blocked]))))
      (with_user s u @ [placeholder])"
    by (simp add: record_extends [of w r] history_ok_append history_ok_mono)
      (simp add: history_ok_def)
  then show ?thesis using model_flagged by (simp add: loop_body_model_flagged)
next
  case (model_clean r)
  have "history_ok (after_user_check w s u) (with_user s u)"
    using assms model_clean(2) by (rule with_user_ok)
  then have "history_ok (after_model_check w s u r) (with_user s u)"
    using after_reply_extends [of w s u] after_model_check_extends [of w s u r]
    by (auto simp add: history_ok_mono)
  moreover have "history_ok (after_model_check w s u r) [\<lparr>role = Assistant, content = r\<rparr>]"
    using model_cleared [OF model_clean(4)] by (simp add: history_ok_def)
  ultimately have "history_ok (after_model_check w s u r @ [display r])
      (with_user s u @ [\<lparr>role = Assistant, content = r\<rparr>])"
    by (simp add: history_ok_append history_ok_mono)
  then show ?thesis using model_clean by (simp add: loop_body_model_clean)
qed

section \<open>One turn sends only checked histories and shows only cleared replies\<close>

lemma other_events_not_display:
  "Input u \<noteq> display r"
  "ModerationsCreate t resp \<noteq> display r"
  "ChatCompletionsCreate msgs choices \<noteq> display r"
  "FileWrite f c \<noteq> display r"
  "SubprocessRun argv done \<noteq> display r"
  by (simp_all add: display_def)

lemma always_after_gate_prints_request: "always_after request_ok seen (gate_prints resp)"
  by (rule always_after_all) (simp add: gate_prints_no_request not_request_ok)

lemma always_after_handler_prints_request: "always_after request_ok seen (handler_prints res)"
  by (rule always_after_all) (simp add: handler_prints_no_request not_request_ok)

lemma always_after_handler_prints_display: "always_after display_ok seen (handler_prints res)"
  by (rule always_after_all) (use handler_prints_not_display in blast)

lemma always_after_recorded_request: "always_after request_ok seen (recorded w t tr)"
  by (rule always_after_all) (simp add: recorded_no_request not_request_ok)

lemma always_after_gate_prints_display: "always_after display_ok seen (gate_prints resp)"
  by (rule always_after_all) (use gate_prints_not_display in blast)

lemma always_after_recorded_display: "always_after display_ok seen (recorded w t tr)"
  by (rule always_after_all) (use recorded_not_display in blast)

lemma turn_requests_ok:
  assumes "history_ok (trace s) (messages s)"
  shows "always_after request_ok (trace s) (emitted w s u)"
proof (cases rule: loop_body_cases [where u = u and w = w and s = s])
  case exit
  then show ?thesis by (simp add: emitted_exit goodbye_def)
next
  case user_flagged
  then show ?thesis
    by (simp add: emitted_user_flagged always_after_append always_after_gate_prints_request
        always_after_recorded_request user_blocked_def)
next
  case (completion_error e)
  have "history_ok (after_user_check w s u) (with_user s u)"
    using assms completion_error(2) by (rule with_user_ok)
  then show ?thesis using completion_error
    by (simp add: emitted_completion_error always_after_append
        always_after_gate_prints_request after_user_check_eq)
next
  case (model_flagged r)
  have "history_ok (after_user_check w s u) (with_user s u)"
    using assms model_flagged(2) by (rule with_user_ok)
  then show ?thesis using model_flagged
    by (simp add: emitted_model_flagged always_after_append always_after_gate_prints_request
        always_after_recorded_request always_after_handler_prints_request after_user_check_eq
        model_blocked_def)
next
  case (model_clean r)
  have "history_ok (after_user_check w s u) (with_user s u)"
    using assms model_clean(2) by (rule with_user_ok)
  then show ?thesis using model_clean
    by (simp add: emitted_model_clean always_after_append always_after_gate_prints_request
        after_user_check_eq display_def)
qed

lemma turn_displays_ok: "always_after display_ok (trace s) (emitted w s u)"
proof (cases rule: loop_body_cases [where u = u and w = w and s = s])
  case exit
  then show ?thesis by (simp add: emitted_exit goodbye_not_display other_events_not_display)
next
  case user_flagged
  then show ?thesis
    by (simp add: emitted_user_flagged always_after_append always_after_gate_prints_display
        always_after_recorded_display user_blocked_not_display other_events_not_display)
next
  case (completion_error e)
  then show ?thesis
    by (simp add: emitted_completion_error always_after_append
        always_after_gate_prints_display other_events_not_display)
      (simp add: display_def)
next
  case (model_flagged r)
  then show ?thesis
    by (simp add: emitted_model_flagged always_after_append always_after_gate_prints_display
        always_after_recorded_display always_after_handler_prints_display
        model_blocked_not_display other_events_not_display)
next
  case (model_clean r)
  have c: "cleared (after_model_check w s u r) r" using model_clean(4) by (rule model_cleared)
  have "display_ok (after_model_check w s u r) (display r)"
    using c by (simp add: display_def)
  then have "display_ok (trace s @ Input u #
       ModerationsCreate u (moderations_create w (trace s @ [Input u]) u) #
       gate_prints (moderations_create w (trace s @ [Input u]) u) @
       ChatCompletionsCreate (with_user s u)
          (chat_completions_create w (after_user_check w s u) (with_user s u)) #
       ModerationsCreate r (moderations_create w (after_reply w s u) r) #
       gate_prints (moderations_create w (after_reply w s u) r)) (display r)"
    by (simp add: after_model_check_eq [of w s u r] after_reply_eq [of w s u]
        after_user_check_eq [of w s u])
  then show ?thesis using model_clean
    by (simp add: emitted_model_clean always_after_append always_after_gate_prints_display
        other_events_not_display)
qed

section \<open>The whole session\<close>

lemma turn_inv:
  assumes "history_ok (trace s) (messages s)"
    and "always_after request_ok [] (trace s)"
    and "always_after display_ok [] (trace s)"
  shows "history_ok (trace (snd (loop_body w s u))) (messages (snd (loop_body w s u))) \<and>
         always_after request_ok [] (trace (snd (loop_body w s u))) \<and>
         always_after display_ok [] (trace (snd (loop_body w s u)))"
  using assms turn_history_ok [OF assms(1), of w u] turn_requests_ok [OF assms(1), of w u]
    turn_displays_ok [of s w u]
  by (simp add: trace_extends always_after_append)

lemma chat_loop_inv:
  assumes "history_ok (trace s) (messages s)"
    and "always_after request_ok [] (trace s)"
    and "always_after display_ok [] (trace s)"
  shows "history_ok (trace (snd (chat_loop w s stdin))) (messages (snd (chat_loop w s stdin))) \<and>
         always_after request_ok [] (trace (snd (chat_loop w s stdin))) \<and>
         always_after display_ok [] (trace (snd (chat_loop w s stdin)))"
  using assms
proof (induction stdin arbitrary: s)
  case Nil
  then show ?case by simp
next
  case (Cons u rest)
  obtain f s1 where step: "loop_body w s u = (f, s1)" by (cases "loop_body w s u")
  have inv1: "history_ok (trace s1) (messages s1) \<and> always_after request_ok [] (trace s1) \<and>
      always_after display_ok [] (trace s1)"
    using turn_inv [OF Cons.prems, of w u] step by simp
  show ?case
  proof (cases f)
    case Continue
    then have "chat_loop w s (u # rest) = chat_loop w s1 rest" using step by simp
    then show ?thesis using Cons.IH [of s1] inv1 by simp
  next
    case Break
    then have "chat_loop w s (u # rest) = (Returned, s1)" using step by simp
    then show ?thesis using inv1 by simp
  next
    case (Raise e)
    then have "chat_loop w s (u # rest) = (Escaped e, s1)" using step by simp
    then show ?thesis using inv1 by simp
  qed
qed

lemma initial_inv:
  "history_ok (trace initial) (messages initial) \<and>
   always_after request_ok [] (trace initial) \<and>
   always_after display_ok [] (trace initial)"
proof (intro conjI)
  show "history_ok (trace initial) (messages initial)"
    by (simp add: initial_def history_ok_def system_message_def)
  show "always_after request_ok [] (trace initial)"
    by (simp add: initial_def banner_def)
  have "always_after display_ok [] banner"
    by (rule always_after_all) (use banner_not_display in blast)
  then show "always_after display_ok [] (trace initial)"
    by (simp add: initial_def)
qed

lemmas session_inv = chat_loop_inv [OF initial_inv [THEN conjunct1]
    initial_inv [THEN conjunct2, THEN conjunct1] initial_inv [THEN conjunct2, THEN conjunct2]]

lemma session_requests:
  assumes "trace (snd (chat_loop w initial stdin)) = pre @ ChatCompletionsCreate msgs res # post"
  shows "history_ok pre msgs"
proof -
  have "always_after request_ok [] (trace (snd (chat_loop w initial stdin)))"
    using session_inv [of w stdin] by simp
  then have "request_ok ([] @ pre) (ChatCompletionsCreate msgs res)"
    unfolding always_after_split using assms by blast
  then show ?thesis by simp
qed

lemma session_displays:
  assumes "trace (snd (chat_loop w initial stdin)) = pre @ display r # post"
  shows "cleared pre r"
proof -
  have "always_after display_ok [] (trace (snd (chat_loop w initial stdin)))"
    using session_inv [of w stdin] by simp
  then have "display_ok ([] @ pre) (display r)"
    unfolding always_after_split using assms by blast
  then show ?thesis by simp
qed

lemma sample_strips:
  "strip greeting = ''Hi there!''"
  "strip ''  rude '' = ''rude''"
  by (simp_all add: greeting_def strip_def lstrip_def rstrip_def whitespace_def
      strip_leading.simps)

lemmas run_defs = loop_body_def moderate_text_def get_reply_def record_flagged_content_def
  run_check_def Let_def exit_keywords_def lower_def lower_char_def sample_strips
  with_user_def

lemma clock_stamp: "strftime clock = ''20240601_093005''"
  by (simp add: strftime_def clock_def zfill2_def zfill4_def digit_def)

lemma service_bad:
  "loop_body service initial ''bad'' =
     (Continue,
      \<lparr>messages = [system_message],
       trace = banner @
         [Input ''bad'', ModerationsCreate ''bad'' (Returns [True]), user_blocked,
          FileWrite ''flagged_event_20240601_093005.txt''
            (artifact_content ''20240601_093005'' ''bad''),
          SubprocessRun (git_add ''flagged_event_20240601_093005.txt'') Completed,
          SubprocessRun (git_commit ''flagged_event_20240601_093005.txt'') Completed,
          SubprocessRun git_push Completed,
          pushed_notice ''flagged_event_20240601_093005.txt'']\<rparr>)"
  by (simp add: run_defs service_def initial_def clock_stamp artifact_name_def)

lemma service_hello:
  "loop_body service initial ''hello'' =
     (Continue,
      \<lparr>messages = [system_message, \<lparr>role = User, content = ''hello''\<rparr>,
                   \<lparr>role = Assistant, content = ''Hi there!''\<rparr>],
       trace = banner @
         [Input ''hello'', ModerationsCreate ''hello'' (Returns [False]),
          ChatCompletionsCreate [system_message, \<lparr>role = User, content = ''hello''\<rparr>]
            (Returns [Some greeting, Some ''unused'']),
          ModerationsCreate ''Hi there!'' (Returns [False]),
          display ''Hi there!'']\<rparr>)"
  by (simp add: run_defs service_def initial_def)

section \<open>Turns of the sample environments\<close>

lemma service_provoke:
  "loop_body service initial ''provoke'' =
     (Continue,
      \<lparr>messages = [system_message, \<lparr>role = User, content = ''provoke''\<rparr>, placeholder],
       trace = banner @
         [Input ''provoke'', ModerationsCreate ''provoke'' (Returns [False]),
          ChatCompletionsCreate [system_message, \<lparr>role = User, content = ''provoke''\<rparr>]
            (Returns [Some ''  rude '']),
          ModerationsCreate ''rude'' (Returns [True]), model_blocked,
          FileWrite ''flagged_event_20240601_093005.txt''
            (artifact_content ''20240601_093005'' ''rude''),
          SubprocessRun (git_add ''flagged_event_20240601_093005.txt'') Completed,
          SubprocessRun (git_commit ''flagged_event_20240601_093005.txt'') Completed,
          SubprocessRun git_push Completed,
          pushed_notice ''flagged_event_20240601_093005.txt'']\<rparr>)"
  by (simp add: run_defs service_def initial_def clock_stamp artifact_name_def)

lemma service_fail:
  "loop_body service initial ''fail'' =
     (Break,
      \<lparr>messages = [system_message, \<lparr>role = User, content = ''fail''\<rparr>],
       trace = banner @
         [Input ''fail'', ModerationsCreate ''fail'' (Returns [False]),
          ChatCompletionsCreate [system_message, \<lparr>role = User, content = ''fail''\<rparr>]
            (Raises ''Service unavailable''),
          Print ''Error: Service unavailable'']\<rparr>)"
  by (simp add: run_defs service_def initial_def)

lemma service_quit:
  "loop_body service initial ''QuIt'' =
     (Break, \<lparr>messages = [system_message], trace = banner @ [Input ''QuIt'', goodbye]\<rparr>)"
  by (simp add: run_defs service_def initial_def)


lemma sample_flags:
  "user_flagged service initial ''bad''"
  "user_flagged offline initial ''bad''"
  "\<not> user_flagged service initial ''hello''"
  "\<not> user_flagged service initial ''provoke''"
  "\<not> user_flagged service initial ''fail''"
  by (simp_all add: user_flagged_def moderate_text_def Let_def service_def offline_def)

lemma sample_exits:
  "lower ''QuIt'' \<in> set exit_keywords"
  "lower ''bad'' \<notin> set exit_keywords"
  "lower ''hello'' \<notin> set exit_keywords"
  "lower ''provoke'' \<notin> set exit_keywords"
  "lower ''fail'' \<notin> set exit_keywords"
  by (simp_all add: exit_keywords_def lower_def lower_char_def)

lemma sample_replies:
  "reply service initial ''hello'' = Returns ''Hi there!''"
  "reply service initial ''provoke'' = Returns ''rude''"
  "reply service initial ''fail'' = Raises ''Service unavailable''"
  by (simp_all add: reply_def get_reply_def after_user_check_def moderate_text_def with_user_def
      Let_def service_def sample_strips initial_def)

lemma sample_model_flags:
  "model_flagged service initial ''provoke'' ''rude''"
  "\<not> model_flagged service initial ''hello'' ''Hi there!''"
  by (simp_all add: model_flagged_def moderate_text_def Let_def service_def)

lemma user_flagged_no_request:
  "lower u \<notin> set exit_keywords \<Longrightarrow> user_flagged w s u \<Longrightarrow> filter is_request (emitted w s u) = []"
  by (auto simp add: emitted_user_flagged filter_empty_conv user_blocked_def
      dest: gate_prints_no_request recorded_no_request)

lemma display_not_other_events:
  "display r \<noteq> Input u"
  "display r \<noteq> ModerationsCreate t resp"
  "display r \<noteq> ChatCompletionsCreate msgs choices"
  "display r \<noteq> FileWrite f c"
  "display r \<noteq> SubprocessRun argv done"
  "display r \<noteq> model_blocked"
  "display r \<noteq> user_blocked"
  "display r \<noteq> goodbye"
  using model_blocked_not_display [of r] user_blocked_not_display [of r]
    goodbye_not_display [of r]
  by (auto simp add: display_def)

lemma model_flagged_no_display:
  "lower u \<notin> set exit_keywords \<Longrightarrow> \<not> user_flagged w s u \<Longrightarrow> reply w s u = Returns r \<Longrightarrow>
   model_flagged w s u r \<Longrightarrow> display r \<notin> set (emitted w s u)"
  by (simp add: emitted_model_flagged gate_prints_not_display recorded_not_display
      handler_prints_not_display display_not_other_events)

text \<open>
  C1. A user line the gate flags is not sent on: the turn makes no request to the
  completion service and leaves \<^verbatim>\<open>messages\<close> as it was. A reply the gate flags is not
  shown: the line that displays it is not among the lines the turn prints. Over a whole
  session, every user message that any completion request carries had been answered clean
  by the moderation service before the request, and every displayed reply had been answered
  clean before it was displayed.
\<close>

theorem flagged_text_withheld:
  "(lower u \<notin> set exit_keywords \<and> user_flagged w s u \<longrightarrow>
      filter is_request (emitted w s u) = [] \<and>
      messages (snd (loop_body w s u)) = messages s) \<and>
   (lower u \<notin> set exit_keywords \<and> \<not> user_flagged w s u \<and> reply w s u = Returns r \<and>
    model_flagged w s u r \<longrightarrow>
      display r \<notin> set (emitted w s u)) \<and>
   (trace (snd (chat_loop w initial stdin)) = pre @ ChatCompletionsCreate msgs res # post \<and>
    m \<in> set msgs \<and> role m = User \<longrightarrow>
      cleared pre (content m)) \<and>
   (trace (snd (chat_loop w initial stdin)) = before @ display shown # later \<longrightarrow>
      cleared before shown)"
proof (intro conjI impI)
  assume "lower u \<notin> set exit_keywords \<and> user_flagged w s u"
  then show "filter is_request (emitted w s u) = []"
    and "messages (snd (loop_body w s u)) = messages s"
    by (simp_all add: user_flagged_no_request loop_body_user_flagged)
next
  assume "lower u \<notin> set exit_keywords \<and> \<not> user_flagged w s u \<and> reply w s u = Returns r \<and>
    model_flagged w s u r"
  then show "display r \<notin> set (emitted w s u)"
    by (simp add: model_flagged_no_display)
next
  assume h: "trace (snd (chat_loop w initial stdin)) = pre @ ChatCompletionsCreate msgs res # post \<and>
    m \<in> set msgs \<and> role m = User"
  then have "history_ok pre msgs" using session_requests by blast
  with h show "cleared pre (content m)"
    by (auto simp add: history_ok_def list_all_iff placeholder_def)
next
  assume "trace (snd (chat_loop w initial stdin)) = before @ display shown # later"
  then show "cleared before shown" by (rule session_displays)
qed

lemma service_session_hello:
  "chat_loop service initial [''hello''] =
     (EOFError,
      \<lparr>messages = [system_message, \<lparr>role = User, content = ''hello''\<rparr>,
                   \<lparr>role = Assistant, content = ''Hi there!''\<rparr>],
       trace = banner @
         [Input ''hello'', ModerationsCreate ''hello'' (Returns [False]),
          ChatCompletionsCreate [system_message, \<lparr>role = User, content = ''hello''\<rparr>]
            (Returns [Some greeting, Some ''unused'']),
          ModerationsCreate ''Hi there!'' (Returns [False]),
          display ''Hi there!'']\<rparr>)"
  by (simp add: service_hello)

theorem flagged_text_withheld_witness:
  "lower ''bad'' \<notin> set exit_keywords \<and> user_flagged service initial ''bad'' \<and>
   filter is_request (emitted service initial ''bad'') = [] \<and>
   messages (snd (loop_body service initial ''bad'')) = messages initial \<and>
   lower ''provoke'' \<notin> set exit_keywords \<and> \<not> user_flagged service initial ''provoke'' \<and>
   reply service initial ''provoke'' = Returns ''rude'' \<and>
   model_flagged service initial ''provoke'' ''rude'' \<and>
   display ''rude'' \<notin> set (emitted service initial ''provoke'') \<and>
   trace (snd (chat_loop service initial [''hello''])) =
     (banner @ [Input ''hello'', ModerationsCreate ''hello'' (Returns [False])]) @
     ChatCompletionsCreate [system_message, \<lparr>role = User, content = ''hello''\<rparr>]
       (Returns [Some greeting, Some ''unused'']) #
     [ModerationsCreate ''Hi there!'' (Returns [False]), display ''Hi there!''] \<and>
   \<lparr>role = User, content = ''hello''\<rparr> \<in> set [system_message, \<lparr>role = User, content = ''hello''\<rparr>] \<and>
   cleared (banner @ [Input ''hello'', ModerationsCreate ''hello'' (Returns [False])]) ''hello'' \<and>
   trace (snd (chat_loop service initial [''hello''])) =
     (banner @
       [Input ''hello'', ModerationsCreate ''hello'' (Returns [False]),
        ChatCompletionsCreate [system_message, \<lparr>role = User, content = ''hello''\<rparr>]
          (Returns [Some greeting, Some ''unused'']),
        ModerationsCreate ''Hi there!'' (Returns [False])]) @
     display ''Hi there!'' # [] \<and>
   cleared (banner @
       [Input ''hello'', ModerationsCreate ''hello'' (Returns [False]),
        ChatCompletionsCreate [system_message, \<lparr>role = User, content = ''hello''\<rparr>]
          (Returns [Some greeting, Some ''unused'']),
        ModerationsCreate ''Hi there!'' (Returns [False])]) ''Hi there!''"
proof -
  let ?req = "ChatCompletionsCreate [system_message, \<lparr>role = User, content = ''hello''\<rparr>]
       (Returns [Some greeting, Some ''unused''])"
  let ?pre = "banner @ [Input ''hello'', ModerationsCreate ''hello'' (Returns [False])]"
  let ?chk = "ModerationsCreate ''Hi there!'' (Returns [False])"
  have a: "lower ''bad'' \<notin> set exit_keywords \<and> user_flagged service initial ''bad''"
    by (simp add: sample_exits sample_flags)
  have b: "lower ''provoke'' \<notin> set exit_keywords \<and> \<not> user_flagged service initial ''provoke'' \<and>
      reply service initial ''provoke'' = Returns ''rude'' \<and>
      model_flagged service initial ''provoke'' ''rude''"
    by (simp add: sample_exits sample_flags sample_replies sample_model_flags)
  have c: "trace (snd (chat_loop service initial [''hello''])) =
      ?pre @ ?req # [?chk, display ''Hi there!''] \<and>
      \<lparr>role = User, content = ''hello''\<rparr> \<in> set [system_message, \<lparr>role = User, content = ''hello''\<rparr>] \<and>
      role \<lparr>role = User, content = ''hello''\<rparr> = User"
    by (simp add: service_session_hello del: chat_loop.simps)
  have d: "trace (snd (chat_loop service initial [''hello''])) =
      (?pre @ [?req, ?chk]) @ display ''Hi there!'' # []"
    by (simp add: service_session_hello del: chat_loop.simps)
  note t1 = flagged_text_withheld [of "''bad''" service initial, THEN conjunct1, rule_format, OF a]
  note t2 = flagged_text_withheld [of "''provoke''" service initial "''rude''",
      THEN conjunct2, THEN conjunct1, rule_format, OF b]
  note t3 = flagged_text_withheld [of _ service _ _ "[''hello'']" ?pre
      "[system_message, \<lparr>role = User, content = ''hello''\<rparr>]"
      "Returns [Some greeting, Some ''unused'']" "[?chk, display ''Hi there!'']"
      "\<lparr>role = User, content = ''hello''\<rparr>",
      THEN conjunct2, THEN conjunct2, THEN conjunct1, rule_format, OF c]
  note t4 = flagged_text_withheld [of _ service _ _ "[''hello'']" _ _ _ _ _
      "?pre @ [?req, ?chk]" "''Hi there!''" "[]",
      THEN conjunct2, THEN conjunct2, THEN conjunct2, rule_format, OF d]
  show ?thesis using a b c d t1 t2 t3 t4 by simp
qed

text \<open>
  C3. In the state a session has reached after any number of input lines, every user
  message of \<^verbatim>\<open>messages\<close> has a content that the moderation service answered clean earlier
  in the trace, and every assistant message is either the fixed placeholder or has such a
  content. The same holds of the list each completion request carries, against the trace
  before the request. In a turn whose reply the gate flags, \<^verbatim>\<open>messages\<close> grows by the user's
  message and the placeholder, whatever the reply was.
\<close>

theorem history_holds_cleared_or_placeholder:
  "(m \<in> set (messages (snd (chat_loop w initial stdin))) \<and> role m = User \<longrightarrow>
      cleared (trace (snd (chat_loop w initial stdin))) (content m)) \<and>
   (a \<in> set (messages (snd (chat_loop w initial stdin))) \<and> role a = Assistant \<longrightarrow>
      a = placeholder \<or> cleared (trace (snd (chat_loop w initial stdin))) (content a)) \<and>
   (trace (snd (chat_loop w initial stdin)) = pre @ ChatCompletionsCreate msgs res # post \<and>
    c \<in> set msgs \<and> role c \<noteq> System \<longrightarrow>
      c = placeholder \<or> cleared pre (content c)) \<and>
   (lower u \<notin> set exit_keywords \<and> \<not> user_flagged w s u \<and> reply w s u = Returns r \<and>
    model_flagged w s u r \<longrightarrow>
      messages (snd (loop_body w s u)) =
        messages s @ [\<lparr>role = User, content = u\<rparr>, placeholder])"
proof (intro conjI impI)
  let ?s = "snd (chat_loop w initial stdin)"
  have ok: "history_ok (trace ?s) (messages ?s)" using session_inv [of w stdin] by simp
  {
    assume "m \<in> set (messages ?s) \<and> role m = User"
    with ok show "cleared (trace ?s) (content m)"
      by (auto simp add: history_ok_def list_all_iff placeholder_def)
  }
  {
    assume "a \<in> set (messages ?s) \<and> role a = Assistant"
    with ok show "a = placeholder \<or> cleared (trace ?s) (content a)"
      by (auto simp add: history_ok_def list_all_iff)
  }
  {
    assume h: "trace ?s = pre @ ChatCompletionsCreate msgs res # post \<and>
      c \<in> set msgs \<and> role c \<noteq> System"
    then have "history_ok pre msgs" using session_requests by blast
    with h show "c = placeholder \<or> cleared pre (content c)"
      by (auto simp add: history_ok_def list_all_iff)
  }
  {
    assume "lower u \<notin> set exit_keywords \<and> \<not> user_flagged w s u \<and> reply w s u = Returns r \<and>
      model_flagged w s u r"
    then show "messages (snd (loop_body w s u)) =
        messages s @ [\<lparr>role = User, content = u\<rparr>, placeholder]"
      by (simp add: loop_body_model_flagged with_user_def)
  }
qed

theorem history_holds_cleared_or_placeholder_witness:
  "\<lparr>role = User, content = ''hello''\<rparr> \<in> set (messages (snd (chat_loop service initial [''hello'']))) \<and>
   cleared (trace (snd (chat_loop service initial [''hello'']))) ''hello'' \<and>
   \<lparr>role = Assistant, content = ''Hi there!''\<rparr> \<in>
     set (messages (snd (chat_loop service initial [''hello'']))) \<and>
   cleared (trace (snd (chat_loop service initial [''hello'']))) ''Hi there!'' \<and>
   trace (snd (chat_loop service initial [''hello''])) =
     (banner @ [Input ''hello'', ModerationsCreate ''hello'' (Returns [False])]) @
     ChatCompletionsCreate [system_message, \<lparr>role = User, content = ''hello''\<rparr>]
       (Returns [Some greeting, Some ''unused'']) #
     [ModerationsCreate ''Hi there!'' (Returns [False]), display ''Hi there!''] \<and>
   cleared (banner @ [Input ''hello'', ModerationsCreate ''hello'' (Returns [False])]) ''hello'' \<and>
   lower ''provoke'' \<notin> set exit_keywords \<and> \<not> user_flagged service initial ''provoke'' \<and>
   reply service initial ''provoke'' = Returns ''rude'' \<and>
   model_flagged service initial ''provoke'' ''rude'' \<and>
   messages (snd (loop_body service initial ''provoke'')) =
     messages initial @ [\<lparr>role = User, content = ''provoke''\<rparr>, placeholder]"
proof -
  let ?u = "\<lparr>role = User, content = ''hello''\<rparr>"
  let ?a = "\<lparr>role = Assistant, content = ''Hi there!''\<rparr>"
  let ?req = "ChatCompletionsCreate [system_message, ?u]
       (Returns [Some greeting, Some ''unused''])"
  let ?pre = "banner @ [Input ''hello'', ModerationsCreate ''hello'' (Returns [False])]"
  let ?chk = "ModerationsCreate ''Hi there!'' (Returns [False])"
  have h1: "?u \<in> set (messages (snd (chat_loop service initial [''hello'']))) \<and> role ?u = User"
    by (simp add: service_session_hello del: chat_loop.simps)
  have h2: "?a \<in> set (messages (snd (chat_loop service initial [''hello'']))) \<and>
      role ?a = Assistant"
    by (simp add: service_session_hello del: chat_loop.simps)
  have h3: "trace (snd (chat_loop service initial [''hello''])) =
      ?pre @ ?req # [?chk, display ''Hi there!''] \<and> ?u \<in> set [system_message, ?u] \<and>
      role ?u \<noteq> System"
    by (simp add: service_session_hello del: chat_loop.simps)
  have h4: "lower ''provoke'' \<notin> set exit_keywords \<and> \<not> user_flagged service initial ''provoke'' \<and>
      reply service initial ''provoke'' = Returns ''rude'' \<and>
      model_flagged service initial ''provoke'' ''rude''"
    by (simp add: sample_exits sample_flags sample_replies sample_model_flags)
  note t = history_holds_cleared_or_placeholder [of ?u service "[''hello'']" ?a ?pre
      "[system_message, ?u]" "Returns [Some greeting, Some ''unused'']"
      "[?chk, display ''Hi there!'']" ?u "''provoke''" initial "''rude''"]
  note t1 = t [THEN conjunct1, rule_format, OF h1]
  note t2 = t [THEN conjunct2, THEN conjunct1, rule_format, OF h2]
  note t3 = t [THEN conjunct2, THEN conjunct2, THEN conjunct1, rule_format, OF h3]
  note t4 = t [THEN conjunct2, THEN conjunct2, THEN conjunct2, rule_format, OF h4]
  have np: "?a \<noteq> placeholder" "?u \<noteq> placeholder" by (simp_all add: placeholder_def)
  show ?thesis using h1 h2 h3 h4 t1 t2 t3 t4 np by simp
qed

section \<open>What one call of the Recorder adds\<close>

lemma recorded_starts:
  "\<exists>runs. recorded w t tr =
     FileWrite (artifact_name (strftime (datetime_now w tr)))
       (artifact_content (strftime (datetime_now w tr)) t) # runs"
  by (simp add: recorded_def record_flagged_content_def run_check_def Let_def
      split: completed.splits)

lemma recorded_writes:
  "filter is_write (recorded w t tr) =
     [FileWrite (artifact_name (strftime (datetime_now w tr)))
        (artifact_content (strftime (datetime_now w tr)) t)]"
  by (simp add: recorded_def record_flagged_content_def run_check_def Let_def
      push_error_def pushed_notice_def split: completed.splits)

lemma recorded_commands:
  "commands (recorded w t tr) = [git_add (artifact_name (strftime (datetime_now w tr)))] \<or>
   commands (recorded w t tr) =
     [git_add (artifact_name (strftime (datetime_now w tr))),
      git_commit (artifact_name (strftime (datetime_now w tr)))] \<or>
   commands (recorded w t tr) =
     [git_add (artifact_name (strftime (datetime_now w tr))),
      git_commit (artifact_name (strftime (datetime_now w tr))), git_push]"
  by (simp add: recorded_def record_flagged_content_def run_check_def Let_def
      push_error_def pushed_notice_def split: completed.splits)


lemma service_records:
  "fst (record_flagged_content service t tr) = Returns ()"
  by (simp add: record_flagged_content_def run_check_def Let_def service_def)


section \<open>Counting verdicts, artifacts and publish attempts\<close>

lemma gate_prints_counts:
  "filter is_write (gate_prints resp) = []"
  "filter is_stage (gate_prints resp) = []"
  "filter is_flagged (gate_prints resp) = []"
  by (simp_all add: gate_prints_def split: result.splits list.splits)

lemma handler_prints_counts:
  "filter is_write (handler_prints res) = []"
  "filter is_stage (handler_prints res) = []"
  "filter is_flagged (handler_prints res) = []"
  by (simp_all add: handler_prints_def split: result.splits)

lemma recorded_counts:
  "length (filter is_write (recorded w t tr)) = 1"
  "length (filter is_stage (recorded w t tr)) = 1"
  "filter is_flagged (recorded w t tr) = []"
  by (simp_all add: recorded_def record_flagged_content_def run_check_def Let_def
      push_error_def pushed_notice_def git_add_def git_commit_def git_push_def
      split: completed.splits)

lemma turn_counts:
  "length (filter is_write (emitted w s u)) = length (filter is_flagged (emitted w s u)) \<and>
   length (filter is_stage (emitted w s u)) = length (filter is_flagged (emitted w s u))"
proof (cases rule: loop_body_cases [where u = u and w = w and s = s])
  case exit
  then show ?thesis by (simp add: emitted_exit goodbye_def)
next
  case user_flagged
  then show ?thesis
    by (simp add: emitted_user_flagged gate_prints_counts recorded_counts user_blocked_def
        user_flagged_eq)
next
  case (completion_error e)
  then show ?thesis
    by (simp add: emitted_completion_error gate_prints_counts user_flagged_eq)
next
  case (model_flagged r)
  then show ?thesis
    by (simp add: emitted_model_flagged gate_prints_counts recorded_counts model_blocked_def
        handler_prints_counts user_flagged_eq model_flagged_eq)
next
  case (model_clean r)
  then show ?thesis
    by (simp add: emitted_model_clean gate_prints_counts display_def
        user_flagged_eq model_flagged_eq)
qed

lemma chat_loop_counts:
  assumes "length (filter is_write (trace s)) = length (filter is_flagged (trace s))"
    and "length (filter is_stage (trace s)) = length (filter is_flagged (trace s))"
  shows "length (filter is_write (trace (snd (chat_loop w s stdin)))) =
           length (filter is_flagged (trace (snd (chat_loop w s stdin)))) \<and>
         length (filter is_stage (trace (snd (chat_loop w s stdin)))) =
           length (filter is_flagged (trace (snd (chat_loop w s stdin))))"
  using assms
proof (induction stdin arbitrary: s)
  case Nil
  then show ?case by simp
next
  case (Cons u rest)
  obtain f s1 where step: "loop_body w s u = (f, s1)" by (cases "loop_body w s u")
  then have "trace s1 = trace s @ emitted w s u" using trace_extends [of w s u] by simp
  then have c1: "length (filter is_write (trace s1)) = length (filter is_flagged (trace s1))"
    and c2: "length (filter is_stage (trace s1)) = length (filter is_flagged (trace s1))"
    using Cons.prems turn_counts [of w s u] by simp_all
  show ?case
  proof (cases f)
    case Continue
    then have "chat_loop w s (u # rest) = chat_loop w s1 rest" using step by simp
    then show ?thesis using Cons.IH [OF c1 c2] by simp
  next
    case Break
    then have "chat_loop w s (u # rest) = (Returned, s1)" using step by simp
    then show ?thesis using c1 c2 by simp
  next
    case (Raise e)
    then have "chat_loop w s (u # rest) = (Escaped e, s1)" using step by simp
    then show ?thesis using c1 c2 by simp
  qed
qed

lemma initial_fields: "trace initial = banner" "messages initial = [system_message]"
  by (simp_all add: initial_def)

lemma file_names_append: "file_names (xs @ ys) = file_names xs @ file_names ys"
  by (induction xs rule: file_names.induct) simp_all

lemma recorded_file_names:
  "file_names (recorded w t tr) = [artifact_name (strftime (datetime_now w tr))]"
  by (simp add: recorded_def record_flagged_content_def run_check_def Let_def
      push_error_def pushed_notice_def split: completed.splits)

lemma service_session_bad_rude:
  "trace (snd (chat_loop service initial [''bad'', ''rude''])) =
     banner @
       [Input ''bad'', ModerationsCreate ''bad'' (Returns [True]), user_blocked,
        FileWrite ''flagged_event_20240601_093005.txt''
          (artifact_content ''20240601_093005'' ''bad''),
        SubprocessRun (git_add ''flagged_event_20240601_093005.txt'') Completed,
        SubprocessRun (git_commit ''flagged_event_20240601_093005.txt'') Completed,
        SubprocessRun git_push Completed,
        pushed_notice ''flagged_event_20240601_093005.txt'',
        Input ''rude'', ModerationsCreate ''rude'' (Returns [True]), user_blocked,
        FileWrite ''flagged_event_20240601_093005.txt''
          (artifact_content ''20240601_093005'' ''rude''),
        SubprocessRun (git_add ''flagged_event_20240601_093005.txt'') Completed,
        SubprocessRun (git_commit ''flagged_event_20240601_093005.txt'') Completed,
        SubprocessRun git_push Completed,
        pushed_notice ''flagged_event_20240601_093005.txt'']"
  by (simp add: service_bad)
    (simp add: run_defs service_def clock_stamp artifact_name_def)

text \<open>
  C5, as stated, fails: the artifact is named after the time of the event to the second,
  so two flagged verdicts within one second write the same file. In the session below the
  two lines are read within one second, the gate flags both, and the trace holds two
  flagged verdicts but only one file name: the second artifact overwrites the first.
\<close>

theorem same_second_artifacts_collide:
  "length (filter is_flagged (trace (snd (chat_loop service initial [''bad'', ''rude''])))) = 2 \<and>
   file_names (trace (snd (chat_loop service initial [''bad'', ''rude'']))) =
     [''flagged_event_20240601_093005.txt'', ''flagged_event_20240601_093005.txt''] \<and>
   length (remdups (file_names (trace (snd (chat_loop service initial [''bad'', ''rude'']))))) = 1"
  by (simp add: service_session_bad_rude file_names_append banner_def user_blocked_def
      pushed_notice_def del: chat_loop.simps)

text \<open>
  C5, amended. One call of the Recorder writes exactly one file, the artifact for the text
  it was given, named after the time of the call to the second, and starts exactly one
  publish sequence: \<^verbatim>\<open>git add\<close> of that file, then \<^verbatim>\<open>git commit\<close>, then \<^verbatim>\<open>git push\<close>,
  cut short after a command that fails. The file is a new one exactly when the trace has
  not written that name before. In every turn, and over every session, the number of
  files written and the number of sequences started both equal the number of flagged
  verdicts: one of each per flagged verdict, none for a clean one.
\<close>

theorem one_escalation_per_flagged_verdict:
  "filter is_write (recorded w t tr) =
     [FileWrite (artifact_name (strftime (datetime_now w tr)))
        (artifact_content (strftime (datetime_now w tr)) t)] \<and>
   length (filter is_stage (recorded w t tr)) = 1 \<and>
   (commands (recorded w t tr) = [git_add (artifact_name (strftime (datetime_now w tr)))] \<or>
    commands (recorded w t tr) =
      [git_add (artifact_name (strftime (datetime_now w tr))),
       git_commit (artifact_name (strftime (datetime_now w tr)))] \<or>
    commands (recorded w t tr) =
      [git_add (artifact_name (strftime (datetime_now w tr))),
       git_commit (artifact_name (strftime (datetime_now w tr))), git_push]) \<and>
   length (remdups (file_names (snd (record_flagged_content w t tr)))) =
     (if artifact_name (strftime (datetime_now w tr)) \<in> set (file_names tr)
      then length (remdups (file_names tr))
      else Suc (length (remdups (file_names tr)))) \<and>
   length (filter is_write (emitted w s u)) = length (filter is_flagged (emitted w s u)) \<and>
   length (filter is_stage (emitted w s u)) = length (filter is_flagged (emitted w s u)) \<and>
   length (filter is_write (trace (snd (chat_loop w initial stdin)))) =
     length (filter is_flagged (trace (snd (chat_loop w initial stdin)))) \<and>
   length (filter is_stage (trace (snd (chat_loop w initial stdin)))) =
     length (filter is_flagged (trace (snd (chat_loop w initial stdin))))"
proof -
  have "length (filter is_write (trace initial)) = length (filter is_flagged (trace initial))"
    and "length (filter is_stage (trace initial)) = length (filter is_flagged (trace initial))"
    by (simp_all add: initial_def banner_def)
  moreover have "length (remdups (file_names (snd (record_flagged_content w t tr)))) =
     (if artifact_name (strftime (datetime_now w tr)) \<in> set (file_names tr)
      then length (remdups (file_names tr))
      else Suc (length (remdups (file_names tr))))"
    by (auto simp add: record_extends [of w t tr] file_names_append recorded_file_names
        length_remdups_card_conv insert_absorb)
  ultimately show ?thesis
    using chat_loop_counts [of initial w stdin] turn_counts [of w s u] recorded_commands [of w t tr]
    by (simp add: recorded_writes recorded_counts)
qed

theorem one_escalation_per_flagged_verdict_witness:
  "artifact_name (strftime (datetime_now service banner)) \<notin> set (file_names banner) \<and>
   length (remdups (file_names (snd (record_flagged_content service ''bad'' banner)))) = 1 \<and>
   filter is_write (recorded service ''bad'' banner) =
     [FileWrite ''flagged_event_20240601_093005.txt''
        (artifact_content ''20240601_093005'' ''bad'')] \<and>
   commands (recorded service ''bad'' banner) =
     [git_add ''flagged_event_20240601_093005.txt'',
      git_commit ''flagged_event_20240601_093005.txt'', git_push] \<and>
   length (filter is_write (emitted service initial ''bad'')) = 1 \<and>
   length (filter is_flagged (emitted service initial ''bad'')) = 1 \<and>
   length (filter is_write (emitted service initial ''hello'')) = 0 \<and>
   length (filter is_flagged (emitted service initial ''hello'')) = 0"
proof -
  have ts: "strftime (datetime_now service tr) = ''20240601_093005''" for tr
    by (simp add: service_def clock_stamp)
  have fresh: "file_names banner = []" by (simp add: banner_def)
  have cmds: "commands (recorded service ''bad'' banner) =
     [git_add ''flagged_event_20240601_093005.txt'',
      git_commit ''flagged_event_20240601_093005.txt'', git_push]"
    by (simp add: recorded_def record_flagged_content_def run_check_def Let_def service_def
        clock_stamp artifact_name_def pushed_notice_def)
  have fl: "length (filter is_flagged (emitted service initial ''bad'')) = 1"
    "length (filter is_flagged (emitted service initial ''hello'')) = 0"
    by (simp_all add: emitted_def service_bad service_hello initial_fields user_blocked_def
        pushed_notice_def display_def)
  show ?thesis
    using one_escalation_per_flagged_verdict [of service "''bad''" banner initial "''bad''"]
      one_escalation_per_flagged_verdict [of service "''bad''" banner initial "''hello''"]
    by (simp add: ts fresh cmds fl artifact_name_def)
qed

section \<open>Lines read in a turn\<close>

lemma gate_prints_no_input: "filter is_input (gate_prints resp) = []"
  by (simp add: gate_prints_def split: result.splits list.splits)

lemma gate_prints_no_check: "filter is_check (gate_prints resp) = []"
  by (simp add: gate_prints_def split: result.splits list.splits)

lemma recorded_no_input: "filter is_input (recorded w t tr) = []"
  by (simp add: recorded_def record_flagged_content_def run_check_def Let_def
      push_error_def pushed_notice_def split: completed.splits)

lemma recorded_no_check: "filter is_check (recorded w t tr) = []"
  by (simp add: recorded_def record_flagged_content_def run_check_def Let_def
      push_error_def pushed_notice_def split: completed.splits)

lemma handler_prints_no_input: "filter is_input (handler_prints res) = []"
  by (simp add: handler_prints_def split: result.splits)

lemma handler_prints_no_check: "filter is_check (handler_prints res) = []"
  by (simp add: handler_prints_def split: result.splits)

lemma turn_reads_one_line: "filter is_input (emitted w s u) = [Input u]"
  by (cases rule: loop_body_cases [where u = u and w = w and s = s])
    (simp_all add: emitted_exit emitted_user_flagged emitted_completion_error
      emitted_model_flagged emitted_model_clean gate_prints_no_input recorded_no_input
      handler_prints_no_input goodbye_def user_blocked_def model_blocked_def display_def)

lemma create_raises_reply:
  "chat_completions_create w (after_user_check w s u) (with_user s u) = Raises e \<Longrightarrow>
   reply w s u = Raises e"
  by (simp add: reply_def get_reply_def Let_def)



section \<open>A publish step that fails\<close>











section \<open>A completion request that fails\<close>

text \<open>
  C7. In a turn whose request to the completion service raises, the loop body prints the
  error and breaks: that print is the last event of the session, the loop returns with the
  state the turn left whatever input is still waiting, and the line of this turn is the
  last line the session has read. The same holds when the response cannot be read (no
  choice, or a null content).
\<close>

theorem completion_failure_ends_session:
  "(lower u \<notin> set exit_keywords \<and> \<not> user_flagged w s u \<and>
    chat_completions_create w (after_user_check w s u) (with_user s u) = Raises e \<longrightarrow>
      fst (loop_body w s u) = Break \<and>
      last (emitted w s u) = Print (''Error: '' @ e) \<and>
      chat_loop w s (u # rest) = (Returned, snd (loop_body w s u)) \<and>
      trace (snd (chat_loop w s (u # rest))) = trace s @ emitted w s u \<and>
      filter is_input (trace (snd (chat_loop w s (u # rest)))) =
        filter is_input (trace s) @ [Input u]) \<and>
   (lower u \<notin> set exit_keywords \<and> \<not> user_flagged w s u \<and> reply w s u = Raises other \<longrightarrow>
      fst (loop_body w s u) = Break \<and>
      last (emitted w s u) = Print (''Error: '' @ other) \<and>
      chat_loop w s (u # rest) = (Returned, snd (loop_body w s u)))"
proof -
  have general: "fst (loop_body w s u) = Break \<and>
      last (emitted w s u) = Print (''Error: '' @ x) \<and>
      chat_loop w s (u # rest) = (Returned, snd (loop_body w s u)) \<and>
      trace (snd (chat_loop w s (u # rest))) = trace s @ emitted w s u \<and>
      filter is_input (trace (snd (chat_loop w s (u # rest)))) =
        filter is_input (trace s) @ [Input u]"
    if h: "lower u \<notin> set exit_keywords \<and> \<not> user_flagged w s u \<and> reply w s u = Raises x" for x
  proof -
    have body: "loop_body w s u =
        (Break,
         \<lparr>messages = with_user s u, trace = after_reply w s u @ [Print (''Error: '' @ x)]\<rparr>)"
      using h by (simp add: loop_body_completion_error)
    have loop: "chat_loop w s (u # rest) = (Returned, snd (loop_body w s u))"
      by (simp add: body)
    have "last (emitted w s u) = Print (''Error: '' @ x)"
      using h by (simp add: emitted_completion_error)
    moreover have "fst (loop_body w s u) = Break" by (simp add: body)
    moreover have "trace (snd (chat_loop w s (u # rest))) = trace s @ emitted w s u"
      unfolding loop by (simp add: trace_extends)
    moreover have "filter is_input (trace (snd (chat_loop w s (u # rest)))) =
        filter is_input (trace s) @ [Input u]"
      unfolding loop by (simp add: trace_extends turn_reads_one_line)
    ultimately show ?thesis using loop by simp
  qed
  show ?thesis
  proof (intro conjI impI)
    assume a: "lower u \<notin> set exit_keywords \<and> \<not> user_flagged w s u \<and>
      chat_completions_create w (after_user_check w s u) (with_user s u) = Raises e"
    then have "lower u \<notin> set exit_keywords \<and> \<not> user_flagged w s u \<and> reply w s u = Raises e"
      by (simp add: create_raises_reply)
    from general [OF this]
    show "fst (loop_body w s u) = Break"
      and "last (emitted w s u) = Print (''Error: '' @ e)"
      and "chat_loop w s (u # rest) = (Returned, snd (loop_body w s u))"
      and "trace (snd (chat_loop w s (u # rest))) = trace s @ emitted w s u"
      and "filter is_input (trace (snd (chat_loop w s (u # rest)))) =
        filter is_input (trace s) @ [Input u]"
      by blast+
  next
    assume b: "lower u \<notin> set exit_keywords \<and> \<not> user_flagged w s u \<and> reply w s u = Raises other"
    from general [OF this]
    show "fst (loop_body w s u) = Break"
      and "last (emitted w s u) = Print (''Error: '' @ other)"
      and "chat_loop w s (u # rest) = (Returned, snd (loop_body w s u))"
      by blast+
  qed
qed

theorem completion_failure_ends_session_witness:
  "lower ''fail'' \<notin> set exit_keywords \<and> \<not> user_flagged service initial ''fail'' \<and>
   chat_completions_create service (after_user_check service initial ''fail'')
     (with_user initial ''fail'') = Raises ''Service unavailable'' \<and>
   reply service initial ''fail'' = Raises ''Service unavailable'' \<and>
   fst (loop_body service initial ''fail'') = Break \<and>
   last (emitted service initial ''fail'') = Print ''Error: Service unavailable'' \<and>
   chat_loop service initial [''fail'', ''hello''] =
     (Returned, snd (loop_body service initial ''fail'')) \<and>
   filter is_input (trace (snd (chat_loop service initial [''fail'', ''hello'']))) =
     [Input ''fail'']"
proof -
  have c: "chat_completions_create service (after_user_check service initial ''fail'')
     (with_user initial ''fail'') = Raises ''Service unavailable''"
    by (simp add: service_def with_user_def)
  have h1: "lower ''fail'' \<notin> set exit_keywords \<and> \<not> user_flagged service initial ''fail'' \<and>
      chat_completions_create service (after_user_check service initial ''fail'')
        (with_user initial ''fail'') = Raises ''Service unavailable''"
    using c by (simp add: sample_exits sample_flags)
  have h2: "lower ''fail'' \<notin> set exit_keywords \<and> \<not> user_flagged service initial ''fail'' \<and>
      reply service initial ''fail'' = Raises ''Service unavailable''"
    by (simp add: sample_exits sample_flags sample_replies)
  have noin: "filter is_input banner = []" by (simp add: banner_def)
  note t = completion_failure_ends_session [of "''fail''" service initial
      "''Service unavailable''" "[''hello'']" "''Service unavailable''"]
  note t1 = t [THEN conjunct1, rule_format, OF h1]
  note t2 = t [THEN conjunct2, rule_format, OF h2]
  show ?thesis using h1 h2 t1 t2
    by (simp add: initial_fields noin turn_reads_one_line del: chat_loop.simps)
qed

section \<open>The exit test\<close>

lemma lower_char_letters:
  "lower_char c = CHR ''e'' \<longleftrightarrow> c = CHR ''e'' \<or> c = CHR ''E''"
  "lower_char c = CHR ''x'' \<longleftrightarrow> c = CHR ''x'' \<or> c = CHR ''X''"
  "lower_char c = CHR ''i'' \<longleftrightarrow> c = CHR ''i'' \<or> c = CHR ''I''"
  "lower_char c = CHR ''t'' \<longleftrightarrow> c = CHR ''t'' \<or> c = CHR ''T''"
  "lower_char c = CHR ''q'' \<longleftrightarrow> c = CHR ''q'' \<or> c = CHR ''Q''"
  "lower_char c = CHR ''u'' \<longleftrightarrow> c = CHR ''u'' \<or> c = CHR ''U''"
  by (auto simp add: lower_char_def split: if_splits)

lemma map4:
  "map f u = [p, q, r, s] \<longleftrightarrow> (\<exists>a b c d. u = [a, b, c, d] \<and> f a = p \<and> f b = q \<and> f c = r \<and> f d = s)"
  by (auto simp add: map_eq_Cons_conv)

lemma lower_exit:
  "lower u = ''exit'' \<longleftrightarrow>
     (\<exists>a b c d. u = [a, b, c, d] \<and> (a = CHR ''e'' \<or> a = CHR ''E'') \<and>
        (b = CHR ''x'' \<or> b = CHR ''X'') \<and> (c = CHR ''i'' \<or> c = CHR ''I'') \<and>
        (d = CHR ''t'' \<or> d = CHR ''T''))"
  unfolding lower_def map4 by (simp only: lower_char_letters)

lemma lower_quit:
  "lower u = ''quit'' \<longleftrightarrow>
     (\<exists>a b c d. u = [a, b, c, d] \<and> (a = CHR ''q'' \<or> a = CHR ''Q'') \<and>
        (b = CHR ''u'' \<or> b = CHR ''U'') \<and> (c = CHR ''i'' \<or> c = CHR ''I'') \<and>
        (d = CHR ''t'' \<or> d = CHR ''T''))"
  unfolding lower_def map4 by (simp only: lower_char_letters)

lemma exit_test:
  "lower u \<in> set exit_keywords \<longleftrightarrow>
      (\<exists>a b c d. u = [a, b, c, d] \<and>
         ((a = CHR ''e'' \<or> a = CHR ''E'') \<and> (b = CHR ''x'' \<or> b = CHR ''X'') \<and>
          (c = CHR ''i'' \<or> c = CHR ''I'') \<and> (d = CHR ''t'' \<or> d = CHR ''T'') \<or>
          (a = CHR ''q'' \<or> a = CHR ''Q'') \<and> (b = CHR ''u'' \<or> b = CHR ''U'') \<and>
          (c = CHR ''i'' \<or> c = CHR ''I'') \<and> (d = CHR ''t'' \<or> d = CHR ''T'')))"
  (is "?l \<longleftrightarrow> ?r")
proof -
  have "?l \<longleftrightarrow> lower u = ''exit'' \<or> lower u = ''quit''"
    by (simp add: exit_keywords_def)
  also have "\<dots> \<longleftrightarrow> ?r"
    unfolding lower_exit lower_quit ex_disj_distrib [symmetric] conj_disj_distribL [symmetric]
    by (rule refl)
  finally show ?thesis .
qed

lemma turn_starts_with_check:
  "lower u \<notin> set exit_keywords \<Longrightarrow>
   \<exists>ev. emitted w s u =
     Input u # ModerationsCreate u (moderations_create w (trace s @ [Input u]) u) # ev"
  by (cases rule: loop_body_cases [where u = u and w = w and s = s])
    (simp_all add: emitted_user_flagged emitted_completion_error
      emitted_model_flagged emitted_model_clean)

text \<open>
  C8. The exit test holds of exactly the four-letter lines that spell \<^verbatim>\<open>exit\<close> or
  \<^verbatim>\<open>quit\<close> in any mix of upper and lower case. On such a line the turn prints the
  farewell and breaks: the session returns, the turn has made no moderation request, and
  \<^verbatim>\<open>messages\<close> is as it was. On any other line the first thing the turn does after
  reading it is to send it, as typed, to the moderation service.
\<close>

theorem exit_keyword_ends_session:
  "(lower u \<in> set exit_keywords \<longleftrightarrow>
      (\<exists>a b c d. u = [a, b, c, d] \<and>
         ((a = CHR ''e'' \<or> a = CHR ''E'') \<and> (b = CHR ''x'' \<or> b = CHR ''X'') \<and>
          (c = CHR ''i'' \<or> c = CHR ''I'') \<and> (d = CHR ''t'' \<or> d = CHR ''T'') \<or>
          (a = CHR ''q'' \<or> a = CHR ''Q'') \<and> (b = CHR ''u'' \<or> b = CHR ''U'') \<and>
          (c = CHR ''i'' \<or> c = CHR ''I'') \<and> (d = CHR ''t'' \<or> d = CHR ''T'')))) \<and>
   (lower u \<in> set exit_keywords \<longrightarrow>
      emitted w s u = [Input u, goodbye] \<and>
      filter is_check (emitted w s u) = [] \<and>
      messages (snd (loop_body w s u)) = messages s \<and>
      fst (loop_body w s u) = Break \<and>
      chat_loop w s (u # rest) = (Returned, snd (loop_body w s u))) \<and>
   (lower u \<notin> set exit_keywords \<longrightarrow>
      (\<exists>ev. emitted w s u =
         Input u # ModerationsCreate u (moderations_create w (trace s @ [Input u]) u) # ev))"
proof (intro conjI impI)
  show "lower u \<in> set exit_keywords \<longleftrightarrow>
      (\<exists>a b c d. u = [a, b, c, d] \<and>
         ((a = CHR ''e'' \<or> a = CHR ''E'') \<and> (b = CHR ''x'' \<or> b = CHR ''X'') \<and>
          (c = CHR ''i'' \<or> c = CHR ''I'') \<and> (d = CHR ''t'' \<or> d = CHR ''T'') \<or>
          (a = CHR ''q'' \<or> a = CHR ''Q'') \<and> (b = CHR ''u'' \<or> b = CHR ''U'') \<and>
          (c = CHR ''i'' \<or> c = CHR ''I'') \<and> (d = CHR ''t'' \<or> d = CHR ''T'')))"
    by (rule exit_test)
next
  assume x: "lower u \<in> set exit_keywords"
  then show "emitted w s u = [Input u, goodbye]" by (rule emitted_exit)
  then show "filter is_check (emitted w s u) = []" by (simp add: goodbye_def)
  from x show "messages (snd (loop_body w s u)) = messages s"
    and "fst (loop_body w s u) = Break"
    and "chat_loop w s (u # rest) = (Returned, snd (loop_body w s u))"
    by (simp_all add: loop_body_exit)
next
  assume "lower u \<notin> set exit_keywords"
  then show "\<exists>ev. emitted w s u =
         Input u # ModerationsCreate u (moderations_create w (trace s @ [Input u]) u) # ev"
    by (rule turn_starts_with_check)
qed

theorem exit_keyword_ends_session_witness:
  "lower ''QuIt'' \<in> set exit_keywords \<and>
   emitted service initial ''QuIt'' = [Input ''QuIt'', goodbye] \<and>
   filter is_check (emitted service initial ''QuIt'') = [] \<and>
   messages (snd (loop_body service initial ''QuIt'')) = [system_message] \<and>
   fst (loop_body service initial ''QuIt'') = Break \<and>
   chat_loop service initial [''QuIt'', ''hello''] =
     (Returned, snd (loop_body service initial ''QuIt'')) \<and>
   lower ''hello'' \<notin> set exit_keywords \<and>
   (\<exists>ev. emitted service initial ''hello'' =
      Input ''hello'' # ModerationsCreate ''hello'' (Returns [False]) # ev)"
proof -
  have h1: "lower ''QuIt'' \<in> set exit_keywords" and h2: "lower ''hello'' \<notin> set exit_keywords"
    by (simp_all add: sample_exits)
  have m: "moderations_create service tr ''hello'' = Returns [False]" for tr
    by (simp add: service_def)
  note t1 = exit_keyword_ends_session [of "''QuIt''" service initial "[''hello'']",
      THEN conjunct2, THEN conjunct1, rule_format, OF h1]
  note t2 = exit_keyword_ends_session [of "''hello''" service initial,
      THEN conjunct2, THEN conjunct2, rule_format, OF h2]
  show ?thesis using h1 h2 t1 t2
    by (simp add: m initial_fields goodbye_def del: chat_loop.simps)
qed

section \<open>The timestamp\<close>

lemma digit_cases:
  "digit n = ''0123456789'' ! (n mod 10) \<and> n mod 10 \<in> {0, 1, 2, 3, 4, 5, 6, 7, 8, 9}"
proof -
  have "k < 10 \<Longrightarrow> k \<in> {0, 1, 2, 3, 4, 5, 6, 7, 8, 9}" for k :: nat
    by (simp only: insert_iff empty_iff) arith
  then show ?thesis by (simp add: digit_def)
qed

lemma digit_is_digit: "digit n \<in> set ''0123456789''"
  using digit_cases [of n] by auto

lemma digit_value_digit: "digit_value (digit n) = n mod 10"
  using digit_cases [of n] by (auto simp add: digit_value_def)

lemma number_zfill2: "n < 100 \<Longrightarrow> number (zfill2 n) = n"
  by (simp add: number_def zfill2_def digit_value_digit)

lemma four_digits:
  assumes "n < 10000"
  shows "10 * (10 * (10 * (n div 1000 mod 10) + n div 100 mod 10) + n div 10 mod 10) +
      n mod 10 = (n::nat)"
proof -
  have h: "n div 100 = n div 10 div 10" "n div 1000 = n div 10 div 10 div 10"
    by (simp_all add: div_mult2_eq)
  have small: "n div 1000 < 10" using assms by simp
  then have "n div 1000 mod 10 = n div 1000" by simp
  then show ?thesis unfolding h by simp
qed

lemma number_zfill4: "n < 10000 \<Longrightarrow> number (zfill4 n) = n"
  using four_digits [of n] by (simp add: number_def zfill4_def digit_value_digit)

lemma strftime_shape:
  "length (strftime d) = 15 \<and> strftime d ! 8 = CHR ''_'' \<and>
   set (take 8 (strftime d)) \<subseteq> set ''0123456789'' \<and>
   set (drop 9 (strftime d)) \<subseteq> set ''0123456789''"
  using digit_is_digit by (simp add: strftime_def zfill2_def zfill4_def)

lemma strftime_fields:
  "take 4 (strftime d) = zfill4 (year d)"
  "take 2 (drop 4 (strftime d)) = zfill2 (month d)"
  "take 2 (drop 6 (strftime d)) = zfill2 (day d)"
  "take 2 (drop 9 (strftime d)) = zfill2 (hour d)"
  "take 2 (drop 11 (strftime d)) = zfill2 (minute d)"
  "take 2 (drop 13 (strftime d)) = zfill2 (second d)"
  by (simp_all add: strftime_def zfill2_def zfill4_def)

text \<open>
  C9. The first thing a call of the Recorder does is to write one text file. Its name is
  \<^verbatim>\<open>flagged_event_\<close>, the timestamp of the call, \<^verbatim>\<open>.txt\<close>. Its content is the line
  \<^verbatim>\<open>Flagged content detected at\<close> with the same timestamp, the line \<^verbatim>\<open>Offending text:\<close>,
  then the offending text unchanged and a final line feed. The timestamp has fifteen
  characters: eight decimal digits, an underscore, six decimal digits; read back, they are
  the year, month, day, hour, minute and second of the call.
\<close>

theorem artifact_format:
  "(\<exists>runs. recorded w t tr =
      FileWrite (''flagged_event_'' @ strftime (datetime_now w tr) @ ''.txt'')
        (''Flagged content detected at '' @ strftime (datetime_now w tr) @ [CHR 0x0A] @
         ''Offending text:'' @ [CHR 0x0A] @ t @ [CHR 0x0A]) # runs) \<and>
   length (strftime d) = 15 \<and>
   strftime d ! 8 = CHR ''_'' \<and>
   set (take 8 (strftime d)) \<subseteq> set ''0123456789'' \<and>
   set (drop 9 (strftime d)) \<subseteq> set ''0123456789'' \<and>
   (year d < 10000 \<and> month d < 100 \<and> day d < 100 \<and> hour d < 100 \<and> minute d < 100 \<and>
    second d < 100 \<longrightarrow>
      number (take 4 (strftime d)) = year d \<and>
      number (take 2 (drop 4 (strftime d))) = month d \<and>
      number (take 2 (drop 6 (strftime d))) = day d \<and>
      number (take 2 (drop 9 (strftime d))) = hour d \<and>
      number (take 2 (drop 11 (strftime d))) = minute d \<and>
      number (take 2 (drop 13 (strftime d))) = second d)"
proof -
  have "\<exists>runs. recorded w t tr =
      FileWrite (''flagged_event_'' @ strftime (datetime_now w tr) @ ''.txt'')
        (''Flagged content detected at '' @ strftime (datetime_now w tr) @ [CHR 0x0A] @
         ''Offending text:'' @ [CHR 0x0A] @ t @ [CHR 0x0A]) # runs"
    using recorded_starts [of w t tr]
    by (simp add: artifact_name_def artifact_content_def newline_def)
  then show ?thesis
    using strftime_shape [of d]
    by (simp only: strftime_fields) (simp add: number_zfill2 number_zfill4)
qed

theorem artifact_format_witness:
  "year clock < 10000 \<and> month clock < 100 \<and> day clock < 100 \<and> hour clock < 100 \<and>
   minute clock < 100 \<and> second clock < 100 \<and>
   strftime clock = ''20240601_093005'' \<and>
   number (take 4 (strftime clock)) = 2024 \<and>
   number (take 2 (drop 4 (strftime clock))) = 6 \<and>
   number (take 2 (drop 6 (strftime clock))) = 1 \<and>
   number (take 2 (drop 9 (strftime clock))) = 9 \<and>
   number (take 2 (drop 11 (strftime clock))) = 30 \<and>
   number (take 2 (drop 13 (strftime clock))) = 5 \<and>
   (\<exists>runs. recorded service ''bad'' banner =
      FileWrite ''flagged_event_20240601_093005.txt''
        (''Flagged content detected at 20240601_093005'' @ [CHR 0x0A] @
         ''Offending text:'' @ [CHR 0x0A] @ ''bad'' @ [CHR 0x0A]) # runs)"
proof -
  have h: "year clock < 10000 \<and> month clock < 100 \<and> day clock < 100 \<and> hour clock < 100 \<and>
      minute clock < 100 \<and> second clock < 100"
    by (simp add: clock_def)
  have f: "year clock = 2024" "month clock = 6" "day clock = 1" "hour clock = 9"
    "minute clock = 30" "second clock = 5"
    by (simp_all add: clock_def)
  have ts: "strftime (datetime_now service tr) = ''20240601_093005''" for tr
    by (simp add: service_def clock_stamp)
  note t = artifact_format [of service "''bad''" banner clock]
  note t1 = t [THEN conjunct1]
  note t2 = t [THEN conjunct2, THEN conjunct2, THEN conjunct2, THEN conjunct2, THEN conjunct2,
      rule_format, OF h]
  show ?thesis using h t1 t2 by (simp add: f ts clock_stamp)
qed

section \<open>Stripping the reply\<close>

lemma strip_leading_splits:
  "\<exists>ks. set ks \<subseteq> set seqs \<and> s = concat ks @ strip_leading seqs s"
proof (induction seqs s rule: strip_leading.induct)
  case (1 seqs s)
  show ?case
  proof (cases "find (\<lambda>ws. ws \<noteq> [] \<and> take (length ws) s = ws) seqs")
    case None
    then have "strip_leading seqs s = s" by (simp add: strip_leading.simps)
    then have "set [] \<subseteq> set seqs \<and> s = concat [] @ strip_leading seqs s" by simp
    then show ?thesis by blast
  next
    case (Some ws)
    then have ws: "ws \<in> set seqs" "take (length ws) s = ws"
      by (auto simp add: find_Some_iff)
    from Some have step: "strip_leading seqs s = strip_leading seqs (drop (length ws) s)"
      by (simp add: strip_leading.simps)
    from "1.IH" [OF Some] obtain ks where ks: "set ks \<subseteq> set seqs"
      "drop (length ws) s = concat ks @ strip_leading seqs (drop (length ws) s)"
      by blast
    have "s = take (length ws) s @ drop (length ws) s" by simp
    then have "s = ws @ concat ks @ strip_leading seqs s"
      using ws(2) ks(2) step by metis
    then have "set (ws # ks) \<subseteq> set seqs \<and> s = concat (ws # ks) @ strip_leading seqs s"
      using ws(1) ks(1) by simp
    then show ?thesis by blast
  qed
qed

lemma strip_leading_done:
  "ws \<in> set seqs \<Longrightarrow> ws \<noteq> [] \<Longrightarrow> \<not> prefix ws (strip_leading seqs s)"
proof (induction seqs s rule: strip_leading.induct)
  case (1 seqs s)
  show ?case
  proof (cases "find (\<lambda>ws. ws \<noteq> [] \<and> take (length ws) s = ws) seqs")
    case None
    then have "\<not> (ws \<noteq> [] \<and> take (length ws) s = ws)"
      using "1.prems"(1) by (auto simp add: find_None_iff)
    then have "\<not> prefix ws s" using "1.prems"(2) by (auto simp add: prefix_def)
    then show ?thesis using None by (simp add: strip_leading.simps)
  next
    case (Some v)
    then have "strip_leading seqs s = strip_leading seqs (drop (length v) s)"
      by (simp add: strip_leading.simps)
    then show ?thesis using "1.IH" [OF Some "1.prems"] by simp
  qed
qed

lemma lstrip_splits: "\<exists>ps. set ps \<subseteq> set whitespace \<and> s = concat ps @ lstrip s"
  unfolding lstrip_def by (rule strip_leading_splits)

lemma lstrip_done: "ws \<in> set whitespace \<Longrightarrow> \<not> prefix ws (lstrip s)"
  unfolding lstrip_def by (rule strip_leading_done) (auto simp add: whitespace_def)

lemma rstrip_splits: "\<exists>qs. set qs \<subseteq> set whitespace \<and> s = rstrip s @ concat qs"
proof -
  obtain ks where ks: "set ks \<subseteq> set (map rev whitespace)"
    "rev s = concat ks @ strip_leading (map rev whitespace) (rev s)"
    using strip_leading_splits by blast
  have "s = rev (rev s)" by simp
  also have "\<dots> = rstrip s @ rev (concat ks)"
    by (subst ks(2)) (simp add: rstrip_def)
  also have "rev (concat ks) = concat (map rev (rev ks))" by (simp add: rev_concat)
  finally have "s = rstrip s @ concat (map rev (rev ks))" .
  moreover have "set (map rev (rev ks)) \<subseteq> set whitespace"
    using ks(1) by auto
  ultimately show ?thesis by blast
qed

lemma rstrip_done: "ws \<in> set whitespace \<Longrightarrow> \<not> suffix ws (rstrip s)"
proof -
  assume ws: "ws \<in> set whitespace"
  then have "rev ws \<in> set (map rev whitespace)" by simp
  moreover have "rev ws \<noteq> []" using ws by (auto simp add: whitespace_def)
  ultimately have "\<not> prefix (rev ws) (strip_leading (map rev whitespace) (rev s))"
    by (rule strip_leading_done)
  then show ?thesis by (simp add: rstrip_def suffix_to_prefix)
qed

lemma strip_splits:
  "\<exists>ps qs. set ps \<subseteq> set whitespace \<and> set qs \<subseteq> set whitespace \<and>
     s = concat ps @ strip s @ concat qs"
proof -
  obtain ps where ps: "set ps \<subseteq> set whitespace" "s = concat ps @ lstrip s"
    using lstrip_splits by blast
  obtain qs where qs: "set qs \<subseteq> set whitespace" "lstrip s = rstrip (lstrip s) @ concat qs"
    using rstrip_splits by blast
  have "s = concat ps @ strip s @ concat qs"
    using ps(2) qs(2) by (simp add: strip_def)
  then show ?thesis using ps(1) qs(1) by blast
qed

lemma strip_done:
  assumes "ws \<in> set whitespace"
  shows "\<not> prefix ws (strip s) \<and> \<not> suffix ws (strip s)"
proof
  obtain qs where qs: "lstrip s = rstrip (lstrip s) @ concat qs"
    using rstrip_splits by blast
  then have "prefix (strip s) (lstrip s)" by (metis strip_def prefixI)
  then show "\<not> prefix ws (strip s)"
    using lstrip_done [OF assms, of s] by (meson prefix_order.order_trans)
  show "\<not> suffix ws (strip s)"
    unfolding strip_def using assms by (rule rstrip_done)
qed

lemma whitespace_code_points:
  "whitespace =
     map utf8 [0x09, 0x0A, 0x0B, 0x0C, 0x0D, 0x1C, 0x1D, 0x1E, 0x1F, 0x20, 0x85, 0xA0, 0x1680,
       0x2000, 0x2001, 0x2002, 0x2003, 0x2004, 0x2005, 0x2006, 0x2007, 0x2008, 0x2009, 0x200A,
       0x2028, 0x2029, 0x202F, 0x205F, 0x3000]"
  by (simp add: whitespace_def utf8_def char_of_def bit_Suc_0_iff)

lemma create_returns_reply:
  "chat_completions_create w (after_user_check w s u) (with_user s u) =
     Returns (Some raw # others) \<Longrightarrow>
   reply w s u = Returns (strip raw)"
  by (simp add: reply_def get_reply_def Let_def)

lemma turn_checks_model_flagged:
  "lower u \<notin> set exit_keywords \<Longrightarrow> \<not> user_flagged w s u \<Longrightarrow> reply w s u = Returns r \<Longrightarrow>
   filter is_check (emitted w s u) =
     [ModerationsCreate u (moderations_create w (trace s @ [Input u]) u),
      ModerationsCreate r (moderations_create w (after_reply w s u) r)]"
  by (cases "model_flagged w s u r")
    (simp_all add: emitted_model_flagged emitted_model_clean gate_prints_no_check
      recorded_no_check handler_prints_no_check model_blocked_def display_def)

text \<open>
  C10. When the completion service returns a reply, the program strips it: what is left is
  the reply without the whitespace characters at its two ends, nothing but such characters
  was removed, and none is left at either end. The whitespace characters are the 29 code
  points of \<^verbatim>\<open>str.isspace\<close>, ASCII or not, each in its UTF-8 encoding.
  The stripped reply is the text the turn sends to the moderation service (its only
  moderation requests are the one on the user's line and the one on the stripped reply).
  When the gate answers clean, the stripped reply is what the turn displays and appends to
  \<^verbatim>\<open>messages\<close>; when the gate flags it, the stripped reply is what the Recorder is called
  on and what the artifact holds.
\<close>

theorem stripped_reply_is_used:
  "whitespace =
     map utf8 [0x09, 0x0A, 0x0B, 0x0C, 0x0D, 0x1C, 0x1D, 0x1E, 0x1F, 0x20, 0x85, 0xA0, 0x1680,
       0x2000, 0x2001, 0x2002, 0x2003, 0x2004, 0x2005, 0x2006, 0x2007, 0x2008, 0x2009, 0x200A,
       0x2028, 0x2029, 0x202F, 0x205F, 0x3000] \<and>
   (\<exists>ps qs. set ps \<subseteq> set whitespace \<and> set qs \<subseteq> set whitespace \<and>
      raw = concat ps @ strip raw @ concat qs) \<and>
   (ws \<in> set whitespace \<longrightarrow> \<not> prefix ws (strip raw) \<and> \<not> suffix ws (strip raw)) \<and>
   (lower u \<notin> set exit_keywords \<and> \<not> user_flagged w s u \<and>
    chat_completions_create w (after_user_check w s u) (with_user s u) =
      Returns (Some raw # others) \<longrightarrow>
      reply w s u = Returns (strip raw) \<and>
      filter is_check (emitted w s u) =
        [ModerationsCreate u (moderations_create w (trace s @ [Input u]) u),
         ModerationsCreate (strip raw) (moderations_create w (after_reply w s u) (strip raw))] \<and>
      (\<not> model_flagged w s u (strip raw) \<longrightarrow>
         last (emitted w s u) = display (strip raw) \<and>
         messages (snd (loop_body w s u)) =
           messages s @ [\<lparr>role = User, content = u\<rparr>,
                         \<lparr>role = Assistant, content = strip raw\<rparr>]) \<and>
      (model_flagged w s u (strip raw) \<longrightarrow>
         prefix
           (snd (record_flagged_content w (strip raw)
              (after_model_check w s u (strip raw) @ [model_blocked])))
           (trace (snd (loop_body w s u))) \<and>
         filter is_write (emitted w s u) =
           [FileWrite
              (artifact_name (strftime
                 (datetime_now w (after_model_check w s u (strip raw) @ [model_blocked]))))
              (artifact_content (strftime
                 (datetime_now w (after_model_check w s u (strip raw) @ [model_blocked])))
                 (strip raw))] \<and>
         (fst (record_flagged_content w (strip raw)
             (after_model_check w s u (strip raw) @ [model_blocked])) = Returns () \<longrightarrow>
            trace (snd (loop_body w s u)) =
              snd (record_flagged_content w (strip raw)
                (after_model_check w s u (strip raw) @ [model_blocked])))))"
proof (intro conjI impI)
  show "whitespace =
     map utf8 [0x09, 0x0A, 0x0B, 0x0C, 0x0D, 0x1C, 0x1D, 0x1E, 0x1F, 0x20, 0x85, 0xA0, 0x1680,
       0x2000, 0x2001, 0x2002, 0x2003, 0x2004, 0x2005, 0x2006, 0x2007, 0x2008, 0x2009, 0x200A,
       0x2028, 0x2029, 0x202F, 0x205F, 0x3000]"
    by (rule whitespace_code_points)
next
  show "\<exists>ps qs. set ps \<subseteq> set whitespace \<and> set qs \<subseteq> set whitespace \<and>
      raw = concat ps @ strip raw @ concat qs"
    by (rule strip_splits)
next
  assume "ws \<in> set whitespace"
  then show "\<not> prefix ws (strip raw)" and "\<not> suffix ws (strip raw)"
    using strip_done by blast+
next
  assume h: "lower u \<notin> set exit_keywords \<and> \<not> user_flagged w s u \<and>
    chat_completions_create w (after_user_check w s u) (with_user s u) =
      Returns (Some raw # others)"
  then have r: "reply w s u = Returns (strip raw)" by (simp add: create_returns_reply)
  then show "reply w s u = Returns (strip raw)" .
  show "filter is_check (emitted w s u) =
        [ModerationsCreate u (moderations_create w (trace s @ [Input u]) u),
         ModerationsCreate (strip raw) (moderations_create w (after_reply w s u) (strip raw))]"
    using h r by (simp add: turn_checks_model_flagged)
  {
    assume c: "\<not> model_flagged w s u (strip raw)"
    show "last (emitted w s u) = display (strip raw)"
      using h r c by (simp add: emitted_model_clean)
    show "messages (snd (loop_body w s u)) =
           messages s @ [\<lparr>role = User, content = u\<rparr>,
                         \<lparr>role = Assistant, content = strip raw\<rparr>]"
      using h r c by (simp add: loop_body_model_clean with_user_def)
  }
  {
    assume f: "model_flagged w s u (strip raw)"
    let ?rec = "record_flagged_content w (strip raw)
      (after_model_check w s u (strip raw) @ [model_blocked])"
    have tr: "trace (snd (loop_body w s u)) = snd ?rec @ handler_prints (fst ?rec)"
      using h r f by (simp add: loop_body_model_flagged)
    show "prefix (snd ?rec) (trace (snd (loop_body w s u)))"
      unfolding tr by simp
    show "filter is_write (emitted w s u) =
           [FileWrite
              (artifact_name (strftime
                 (datetime_now w (after_model_check w s u (strip raw) @ [model_blocked]))))
              (artifact_content (strftime
                 (datetime_now w (after_model_check w s u (strip raw) @ [model_blocked])))
                 (strip raw))]"
      using h r f
      by (simp add: emitted_model_flagged gate_prints_counts recorded_writes
          handler_prints_counts model_blocked_def)
    {
      assume "fst ?rec = Returns ()"
      then show "trace (snd (loop_body w s u)) = snd ?rec"
        unfolding tr by (simp add: handler_prints_def)
    }
  }
qed

theorem stripped_reply_is_used_witness:
  "greeting = utf8 0xA0 @ '' Hi there! '' @ utf8 0x2003 \<and>
   strip greeting = ''Hi there!'' \<and>
   (\<exists>ps qs. set ps \<subseteq> set whitespace \<and> set qs \<subseteq> set whitespace \<and>
      greeting = concat ps @ ''Hi there!'' @ concat qs) \<and>
   [CHR 0xC2, CHR 0xA0] \<in> set whitespace \<and>
   \<not> prefix [CHR 0xC2, CHR 0xA0] (strip greeting) \<and>
   \<not> suffix [CHR 0xC2, CHR 0xA0] (strip greeting) \<and>
   lower ''hello'' \<notin> set exit_keywords \<and> \<not> user_flagged service initial ''hello'' \<and>
   chat_completions_create service (after_user_check service initial ''hello'')
     (with_user initial ''hello'') = Returns (Some greeting # [Some ''unused'']) \<and>
   reply service initial ''hello'' = Returns ''Hi there!'' \<and>
   filter is_check (emitted service initial ''hello'') =
     [ModerationsCreate ''hello'' (Returns [False]),
      ModerationsCreate ''Hi there!'' (Returns [False])] \<and>
   \<not> model_flagged service initial ''hello'' ''Hi there!'' \<and>
   last (emitted service initial ''hello'') = display ''Hi there!'' \<and>
   messages (snd (loop_body service initial ''hello'')) =
     [system_message, \<lparr>role = User, content = ''hello''\<rparr>,
      \<lparr>role = Assistant, content = ''Hi there!''\<rparr>] \<and>
   lower ''provoke'' \<notin> set exit_keywords \<and> \<not> user_flagged service initial ''provoke'' \<and>
   chat_completions_create service (after_user_check service initial ''provoke'')
     (with_user initial ''provoke'') = Returns (Some ''  rude '' # []) \<and>
   model_flagged service initial ''provoke'' ''rude'' \<and>
   fst (record_flagged_content service ''rude''
     (after_model_check service initial ''provoke'' ''rude'' @ [model_blocked])) = Returns () \<and>
   trace (snd (loop_body service initial ''provoke'')) =
     snd (record_flagged_content service ''rude''
       (after_model_check service initial ''provoke'' ''rude'' @ [model_blocked])) \<and>
   filter is_write (emitted service initial ''provoke'') =
     [FileWrite ''flagged_event_20240601_093005.txt''
        (artifact_content ''20240601_093005'' ''rude'')]"
proof -
  have c1: "chat_completions_create service (after_user_check service initial ''hello'')
     (with_user initial ''hello'') = Returns (Some greeting # [Some ''unused''])"
    by (simp add: service_def with_user_def)
  have c2: "chat_completions_create service (after_user_check service initial ''provoke'')
     (with_user initial ''provoke'') = Returns (Some ''  rude '' # [])"
    by (simp add: service_def with_user_def)
  have h1: "lower ''hello'' \<notin> set exit_keywords \<and> \<not> user_flagged service initial ''hello'' \<and>
      chat_completions_create service (after_user_check service initial ''hello'')
        (with_user initial ''hello'') = Returns (Some greeting # [Some ''unused''])"
    using c1 by (simp add: sample_exits sample_flags)
  have h2: "lower ''provoke'' \<notin> set exit_keywords \<and> \<not> user_flagged service initial ''provoke'' \<and>
      chat_completions_create service (after_user_check service initial ''provoke'')
        (with_user initial ''provoke'') = Returns (Some ''  rude '' # [])"
    using c2 by (simp add: sample_exits sample_flags)
  have sp: "[CHR 0xC2, CHR 0xA0] \<in> set whitespace" by (simp add: whitespace_def)
  have g: "greeting = utf8 0xA0 @ '' Hi there! '' @ utf8 0x2003"
    by (simp add: greeting_def utf8_def char_of_def bit_Suc_0_iff)
  have m: "moderations_create service tr ''hello'' = Returns [False]"
    "moderations_create service tr ''Hi there!'' = Returns [False]" for tr
    by (simp_all add: service_def)
  have ts: "strftime (datetime_now service tr) = ''20240601_093005''" for tr
    by (simp add: service_def clock_stamp)
  note a = stripped_reply_is_used [of greeting "[CHR 0xC2, CHR 0xA0]" "''hello''" service
      initial "[Some ''unused'']"]
  note b = stripped_reply_is_used [of "''  rude ''" "[CHR 0xC2, CHR 0xA0]" "''provoke''"
      service initial "[]"]
  note a1 = a [THEN conjunct2, THEN conjunct1]
  note a2 = a [THEN conjunct2, THEN conjunct2, THEN conjunct1, rule_format, OF sp]
  note a3 = a [THEN conjunct2, THEN conjunct2, THEN conjunct2, rule_format, OF h1]
  note b3 = b [THEN conjunct2, THEN conjunct2, THEN conjunct2, rule_format, OF h2]
  show ?thesis
    using a1 a2 a3 b3 h1 h2 sp g
    by (simp add: sample_strips sample_model_flags service_records m ts artifact_name_def
        initial_fields)
qed

end
